theory Spec2Isabelle
  imports Main
begin

section \<open>Characters and strings\<close>

text \<open>
  The linter works on JavaScript strings. The model uses HOL strings: a character is a
  code unit below 256, which covers every character the rules of the linter name
  (the delimiters, quotes, brackets, braces, colon, comma, the word characters and the
  white space below 256). A text read from a file or passed to \<open>lintFile\<close> is a
  \<open>string\<close>; a line is a \<open>string\<close> without line feed.
\<close>

definition NL :: char where
  "NL = CHR 0x0A"

definition CR :: char where
  "CR = CHR 0x0D"

definition DQ :: char where
  "DQ = CHR 0x22"

definition SQ :: char where
  "SQ = CHR 0x27"

text \<open>The class \<open>\s\<close> of a regular expression (and what \<open>trim\<close> removes): tab, line
  feed, vertical tab, form feed, carriage return, space and no-break space.\<close>

definition is_space :: "char \<Rightarrow> bool" where
  "is_space c = (let n = (of_char c :: nat) in
     n = 9 \<or> n = 10 \<or> n = 11 \<or> n = 12 \<or> n = 13 \<or> n = 32 \<or> n = 160)"

text \<open>The class \<open>\w\<close>: letters, digits and the underscore.\<close>

definition is_word :: "char \<Rightarrow> bool" where
  "is_word c = (let n = (of_char c :: nat) in
     (48 \<le> n \<and> n \<le> 57) \<or> (65 \<le> n \<and> n \<le> 90) \<or> n = 95 \<or> (97 \<le> n \<and> n \<le> 122))"

text \<open>The class \<open>[ \t]\<close>.\<close>

definition is_blank :: "char \<Rightarrow> bool" where
  "is_blank c = (c = CHR '' '' \<or> c = CHR 0x09)"

text \<open>The characters the dot of a regular expression does not match.\<close>

definition is_line_terminator :: "char \<Rightarrow> bool" where
  "is_line_terminator c = (c = NL \<or> c = CR)"

definition trim :: "string \<Rightarrow> string" where
  "trim s = rev (dropWhile is_space (rev (dropWhile is_space s)))"

text \<open>\<open>s.split(d)\<close> for a one-character separator: never the empty list.\<close>

fun split_on :: "char \<Rightarrow> string \<Rightarrow> string list" where
  "split_on d [] = [[]]"
| "split_on d (c # cs) =
     (if c = d then [] # split_on d cs
      else (case split_on d cs of
              [] \<Rightarrow> [[c]]
            | l # ls \<Rightarrow> (c # l) # ls))"

text \<open>\<open>ls.join("\n")\<close>.\<close>

fun join_nl :: "string list \<Rightarrow> string" where
  "join_nl [] = []"
| "join_nl [l] = l"
| "join_nl (l # ls) = l @ NL # join_nl ls"

text \<open>\<open>data.replace(/\r/g, "")\<close>.\<close>

definition remove_cr :: "string \<Rightarrow> string" where
  "remove_cr s = filter (\<lambda>c. c \<noteq> CR) s"

text \<open>A number in a template literal: its decimal digits.\<close>

definition digit_char :: "nat \<Rightarrow> char" where
  "digit_char d = char_of (48 + d)"

fun show_nat :: "nat \<Rightarrow> string" where
  "show_nat n = (if n < 10 then [digit_char n] else show_nat (n div 10) @ [digit_char (n mod 10)])"

text \<open>\<open>s.padStart(n, "-")\<close>.\<close>

definition padStart :: "nat \<Rightarrow> string \<Rightarrow> string" where
  "padStart n s = replicate (n - length s) (CHR ''-'') @ s"

text \<open>\<open>lines[j]\<close> in a template literal: a missing element prints as \<open>undefined\<close>.\<close>

definition line_at :: "string list \<Rightarrow> nat \<Rightarrow> string" where
  "line_at lines j = (if j < length lines then lines ! j else ''undefined'')"

text \<open>
  \<open>getSnippet(lines, col, row)\<close> for a row of at least 1, as \<open>lintLineByLine\<close> calls it.
  \<open>Math.floor(Math.log10(row))\<close> is the number of decimal digits of \<open>row\<close> less one.
\<close>

definition getSnippet :: "string list \<Rightarrow> int \<Rightarrow> nat \<Rightarrow> string" where
  "getSnippet lines c r =
     show_nat (r - 1) @ '' | '' @ line_at lines (r - 1) @ [NL]
     @ show_nat r @ '' | '' @ line_at lines r @ [NL]
     @ padStart (nat (c + 3 + (int (length (show_nat r)) - 1))) ''----^'' @ [NL]
     @ show_nat (r + 1) @ '' | '' @ line_at lines (r + 1) @ [NL]"

section \<open>Regular expressions\<close>

text \<open>
  Each regular expression of the linter is a function on the text that starts at a
  position: it returns the length of the match that starts there (\<open>match[0].length\<close>)
  and the length of its first group (\<open>match[1].length\<close>, 0 where there is no group), or
  \<open>None\<close>. None of the expressions below can match in two ways at one position, so
  the greedy match is the only one.
\<close>

type_synonym matcher = "string \<Rightarrow> (nat \<times> nat) option"

text \<open>The leftmost match at or after a position: its index and the two lengths.\<close>

fun first_match :: "matcher \<Rightarrow> nat \<Rightarrow> string \<Rightarrow> (nat \<times> nat \<times> nat) option" where
  "first_match m p [] = (case m [] of None \<Rightarrow> None | Some (l, g) \<Rightarrow> Some (p, l, g))"
| "first_match m p (c # cs) =
     (case m (c # cs) of
        None \<Rightarrow> first_match m (Suc p) cs
      | Some (l, g) \<Rightarrow> Some (p, l, g))"

text \<open>\<open>regex.exec(s)\<close> of a global expression whose \<open>lastIndex\<close> is given.\<close>

definition exec :: "matcher \<Rightarrow> nat \<Rightarrow> string \<Rightarrow> (nat \<times> nat \<times> nat) option" where
  "exec m lastIndex s =
     (if length s < lastIndex then None else first_match m lastIndex (drop lastIndex s))"

text \<open>\<open>s.search(regex)\<close>: the index of the leftmost match, or -1. It starts at 0 and
  leaves \<open>lastIndex\<close> as it was.\<close>

definition search :: "matcher \<Rightarrow> string \<Rightarrow> int" where
  "search m s = (case first_match m 0 s of None \<Rightarrow> - 1 | Some (p, l, g) \<Rightarrow> int p)"

text \<open>One character of a class: \<open>/['"]/\<close>, \<open>/[\[\]]/\<close>, \<open>/[\{\}]/\<close>, \<open>/\S/\<close>, \<open>/:/\<close>.\<close>

definition re_char :: "(char \<Rightarrow> bool) \<Rightarrow> matcher" where
  "re_char P s = (case s of [] \<Rightarrow> None | c # _ \<Rightarrow> if P c then Some (1, 0) else None)"

definition is_quote :: "char \<Rightarrow> bool" where
  "is_quote c = (c = SQ \<or> c = DQ)"

definition is_bracket :: "char \<Rightarrow> bool" where
  "is_bracket c = (c = CHR ''['' \<or> c = CHR '']'')"

definition is_curly :: "char \<Rightarrow> bool" where
  "is_curly c = (c = CHR ''{'' \<or> c = CHR ''}'')"

definition is_colon :: "char \<Rightarrow> bool" where
  "is_colon c = (c = CHR '':'')"

definition is_nonspace :: "char \<Rightarrow> bool" where
  "is_nonspace c = (\<not> is_space c)"

text \<open>\<open>/(\s+):/\<close>: a run of white space and a colon.\<close>

definition re_ws_colon :: matcher where
  "re_ws_colon s =
     (let w = length (takeWhile is_space s) in
      if 0 < w \<and> (case drop w s of [] \<Rightarrow> False | c # _ \<Rightarrow> c = CHR '':'')
      then Some (w + 1, w) else None)"

text \<open>\<open>/(\s+)$/\<close>: white space up to the end of the line.\<close>

definition re_trailing_space :: matcher where
  "re_trailing_space s =
     (if s \<noteq> [] \<and> list_all is_space s then Some (length s, length s) else None)"

text \<open>\<open>/\w(\s{2,})\w/\<close>: two word characters with two or more white-space characters
  between them.\<close>

definition re_repeating_space :: matcher where
  "re_repeating_space s =
     (case s of
        [] \<Rightarrow> None
      | c # r \<Rightarrow>
          (let w = length (takeWhile is_space r) in
           if is_word c \<and> 2 \<le> w \<and> (case drop w r of [] \<Rightarrow> False | d # _ \<Rightarrow> is_word d)
           then Some (w + 2, w) else None))"

text \<open>\<open>/\s\w/\<close>.\<close>

definition re_space_word :: matcher where
  "re_space_word s =
     (case s of
        c # d # _ \<Rightarrow> if is_space c \<and> is_word d then Some (2, 0) else None
      | _ \<Rightarrow> None)"

text \<open>\<open>/:([ \t]{2,})\S/\<close>: a colon, two or more spaces or tabs, and a character that is
  not white space.\<close>

definition re_spaces_after_colon :: matcher where
  "re_spaces_after_colon s =
     (case s of
        [] \<Rightarrow> None
      | c # r \<Rightarrow>
          (let w = length (takeWhile is_blank r) in
           if c = CHR '':'' \<and> 2 \<le> w \<and> (case drop w r of [] \<Rightarrow> False | d # _ \<Rightarrow> \<not> is_space d)
           then Some (w + 2, w) else None))"

text \<open>\<open>/[ \t]\S/\<close>.\<close>

definition re_blank_nonspace :: matcher where
  "re_blank_nonspace s =
     (case s of
        c # d # _ \<Rightarrow> if is_blank c \<and> \<not> is_space d then Some (2, 0) else None
      | _ \<Rightarrow> None)"

text \<open>\<open>/,\s*$/\<close>: a comma and nothing but white space after it.\<close>

definition re_trailing_comma :: matcher where
  "re_trailing_comma s =
     (case s of
        [] \<Rightarrow> None
      | c # r \<Rightarrow> if c = CHR '','' \<and> list_all is_space r then Some (length s, 0) else None)"

text \<open>\<open>/,./\<close>: a comma and any character but a line terminator.\<close>

definition re_comma_char :: matcher where
  "re_comma_char s =
     (case s of
        c # d # _ \<Rightarrow> if c = CHR '','' \<and> \<not> is_line_terminator d then Some (2, 0) else None
      | _ \<Rightarrow> None)"

text \<open>\<open>/\s*,$/\<close>: white space and a comma that ends the line.\<close>

definition re_space_comma_end :: matcher where
  "re_space_comma_end s =
     (let w = length (takeWhile is_space s) in
      if drop w s = '','' then Some (w + 1, 0) else None)"

text \<open>\<open>/^"?\w+"?\s*:/\<close>, tested at the start of the line only: an optional double
  quote, word characters, an optional double quote, white space, a colon.\<close>

definition skip_quote :: "string \<Rightarrow> string" where
  "skip_quote s = (case s of [] \<Rightarrow> [] | c # r \<Rightarrow> if c = DQ then r else s)"

definition is_attribute_line :: "string \<Rightarrow> bool" where
  "is_attribute_line s =
     (let s1 = skip_quote s;
          s2 = skip_quote (dropWhile is_word s1)
      in takeWhile is_word s1 \<noteq> []
         \<and> (case dropWhile is_space s2 of [] \<Rightarrow> False | c # _ \<Rightarrow> c = CHR '':''))"

text \<open>\<open>line.replace(/\s*,$/g, "")\<close>: the expression ends at the end of the line, so it
  matches at most once.\<close>

definition strip_trailing_comma :: "string \<Rightarrow> string" where
  "strip_trailing_comma s =
     (case first_match re_space_comma_end 0 s of
        None \<Rightarrow> s
      | Some (p, l, g) \<Rightarrow> take p s @ drop (p + l) s)"

text \<open>
  The loop \<open>while ((match = regex.exec(line)) !== null) { regex.lastIndex = match.index + 1; ... }\<close>:
  the matches it visits, in order.
\<close>

function exec_loop :: "matcher \<Rightarrow> string \<Rightarrow> nat \<Rightarrow> (nat \<times> nat \<times> nat) list" where
  "exec_loop m line lastIndex =
     (case exec m lastIndex line of
        None \<Rightarrow> []
      | Some (p, l, g) \<Rightarrow> (p, l, g) # exec_loop m line (p + 1))"
  by pat_completeness auto
text \<open>
  The loop of the rule on white space before a colon: \<open>col\<close> is
  \<open>match.index + match[0].search(/:/) + 1\<close> and the loop sets \<open>lastIndex = col - 1\<close>.
\<close>

definition wsbc_col :: "string \<Rightarrow> nat \<Rightarrow> nat \<Rightarrow> int" where
  "wsbc_col line p l = int p + search (re_char is_colon) (take l (drop p line)) + 1"

function wsbc_loop :: "string \<Rightarrow> nat \<Rightarrow> (nat \<times> nat \<times> nat) list" where
  "wsbc_loop line lastIndex =
     (case exec re_ws_colon lastIndex line of
        None \<Rightarrow> []
      | Some (p, l, g) \<Rightarrow> (p, l, g) # wsbc_loop line (nat (wsbc_col line p l - 1)))"
  by pat_completeness auto
section \<open>The data of the linter\<close>

text \<open>
  A reported position: the object \<open>{ row, col, colStart, colEnd, snippet }\<close>, each
  property present or not. The rules of \<open>lintLineByLine\<close> build such objects, and a
  plugin passes one to its callback.
\<close>

record location =
  row :: "int option"
  col :: "int option"
  colStart :: "int option"
  colEnd :: "int option"
  snippet :: "string option"

text \<open>What the lists of \<open>basicErrors\<close>, \<open>basicWarnings\<close>, \<open>extraErrors\<close> and
  \<open>extraWarnings\<close> hold: the name of a required attribute, the index of an empty line,
  or a position.\<close>

datatype entry = Attribute string | Row nat | Loc location

text \<open>An object whose keys are messages, in the order of insertion. A message is
  taken not to be the name of a property that every object inherits (such as
  \<open>constructor\<close>), so that \<open>obj[message]\<close> is the list stored under it or
  \<open>undefined\<close>.\<close>

type_synonym violations = "(string \<times> entry list) list"

definition lookup :: "violations \<Rightarrow> string \<Rightarrow> entry list" where
  "lookup obj k = (case map_of obj k of None \<Rightarrow> [] | Some es \<Rightarrow> es)"

fun assign :: "string \<Rightarrow> entry list \<Rightarrow> violations \<Rightarrow> violations" where
  "assign k v [] = [(k, v)]"
| "assign k v ((k', v') # obj) =
     (if k' = k then (k, v) # obj else (k', v') # assign k v obj)"

text \<open>\<open>{ ...a, ...b }\<close>.\<close>

definition spread :: "violations \<Rightarrow> violations \<Rightarrow> violations" where
  "spread a b = fold (\<lambda>(k, v). assign k v) b a"

text \<open>The \<open>errors\<close> of the object \<open>lintFile\<close> resolves to: \<open>{ noFrontMatter: true }\<close>,
  \<open>{ customError: { message, row, col } }\<close>, or the lists by message.\<close>

datatype errors =
  NoFrontMatter
| CustomError "string option" "int option" "int option"
| Violations violations

record outcome =
  filePath :: string
  fileErrors :: nat
  fileWarnings :: nat
  errors :: errors
  warnings :: violations

text \<open>What \<open>lintLineByLine\<close> returns.\<close>

record basic =
  basicFilePath :: string
  basicFileErrors :: nat
  basicFileWarnings :: nat
  basicErrors :: violations
  basicWarnings :: violations

text \<open>What \<open>extraLinters\<close> returns.\<close>

record extra =
  extraErrors :: violations
  extraWarnings :: violations
  extraFileErrors :: nat
  extraFileWarnings :: nat

text \<open>An exception: \<open>error.reason\<close> and \<open>error.mark\<close> (line and column, from 0) where
  the parser set them.\<close>

record js_error =
  reason :: "string option"
  mark :: "(nat \<times> nat) option"

text \<open>The command-line arguments the linter reads: \<open>args.fix\<close> and \<open>args.quiet\<close>.\<close>

record arguments =
  fix_mode :: bool
  quiet :: bool

text \<open>
  A plugin of \<open>config.extraLintFns\<close> gets the attributes, the lines of the front matter
  and a callback \<open>showOneline(type, message, affected)\<close>. A run of it is the calls of
  the callback it makes, in order, and the counts \<open>{ errors, warnings }\<close> it returns.
  A plugin is trusted to return numbers and not to throw, and it sees nothing of the
  module but what it is handed.
\<close>

type_synonym report = "string \<times> string \<times> location option"

record plugin_run =
  reports :: "report list"
  errors_returned :: nat
  warnings_returned :: nat

type_synonym 'a plugin = "'a \<Rightarrow> string list \<Rightarrow> plugin_run"

text \<open>The configuration as \<open>getConfig\<close> resolves it: \<open>requiredAttributes\<close> is a list and
  \<open>extraLintFns\<close> may be missing.\<close>

record 'a configuration =
  requiredAttributes :: "string list"
  mandatory :: bool
  extraLintFns :: "'a plugin list option"

text \<open>What the linter hands to the console functions of \<open>errors.js\<close>, which are taken
  to print and return.\<close>

datatype payload = PNone | PText string | PRow int | PEntries "entry list"

datatype event =
  ShowError "string option" string payload bool
| ShowWarning string string payload bool
| ShowOneline string string string payload
| ConsoleLog js_error

text \<open>The variables of the module, the files, the console and the exit code of the
  process.\<close>

record 'a state =
  args :: arguments
  config :: "'a configuration"
  errorNumber :: nat
  fixableErrors :: nat
  warningNumber :: nat
  exitCode :: "nat option"
  files :: "string \<Rightarrow> string option"
  console :: "event list"

section \<open>The rules of lintLineByLine\<close>

text \<open>The messages: the keys of \<open>basicErrors\<close> and \<open>basicWarnings\<close>.\<close>

definition msg_missing :: string where
  "msg_missing = ''missing required attribute''"

definition msg_ws_before_colon :: string where
  "msg_ws_before_colon = ''there must be no whitespace before colons''"

definition msg_empty_lines :: string where
  "msg_empty_lines = ''there must be no empty lines''"

definition msg_quotes :: string where
  "msg_quotes = ''there must be no quotes in the front matter''"

definition msg_trailing_spaces :: string where
  "msg_trailing_spaces = ''there must be no trailing spaces''"

definition msg_brackets :: string where
  "msg_brackets = ''there must be no brackets''"

definition msg_curly_braces :: string where
  "msg_curly_braces = ''there must be no curly braces''"

definition msg_indentation :: string where
  "msg_indentation = ''lines cannot be indented more than 2 spaces from the previous line''"

definition msg_trailing_commas :: string where
  "msg_trailing_commas = ''there must be no trailing commas''"

definition msg_whitespace :: string where
  "msg_whitespace = ''possibly unintended whitespace''"

definition msg_commas :: string where
  "msg_commas = ''possibly unintended commas''"

definition oneLineErrors :: "string list" where
  "oneLineErrors = [msg_empty_lines, msg_missing]"

text \<open>The two shapes of the objects the rules push.\<close>

definition position :: "nat \<Rightarrow> int \<Rightarrow> string list \<Rightarrow> location" where
  "position i c fm =
     \<lparr>row = Some (int i), col = Some c, colStart = None, colEnd = None,
      snippet = Some (getSnippet fm c i)\<rparr>"

definition span :: "nat \<Rightarrow> int \<Rightarrow> int \<Rightarrow> int \<Rightarrow> string list \<Rightarrow> location" where
  "span i c cs ce fm =
     \<lparr>row = Some (int i), col = Some c, colStart = Some cs, colEnd = Some ce,
      snippet = Some (getSnippet fm c i)\<rparr>"

text \<open>What each rule finds in line \<open>i\<close> of the front matter \<open>fm\<close>; \<open>line\<close> is \<open>fm[i]\<close>.\<close>

definition no_whitespace_before_colon :: "string list \<Rightarrow> nat \<Rightarrow> string \<Rightarrow> location list" where
  "no_whitespace_before_colon fm i line =
     map (\<lambda>(p, l, g).
            let wsbcLength = int g + 1;
                c = wsbc_col line p l
            in span i c (c - wsbcLength) (c - 1) fm)
         (wsbc_loop line 0)"

definition no_quotes :: "string list \<Rightarrow> nat \<Rightarrow> string \<Rightarrow> location list" where
  "no_quotes fm i line =
     map (\<lambda>(p, l, g).
            let c = int p + search (re_char is_quote) (take l (drop p line)) + 2
            in position i c fm)
         (exec_loop (re_char is_quote) line 0)"

text \<open>The expression that \<open>search\<close> finds, \<open>exec\<close> finds too: the last case is never
  taken.\<close>

definition no_trailing_spaces :: "string list \<Rightarrow> nat \<Rightarrow> string \<Rightarrow> location list" where
  "no_trailing_spaces fm i line =
     (if search re_trailing_space line \<noteq> - 1 then
        (case exec re_trailing_space 0 line of
           Some (p, l, g) \<Rightarrow>
             (let spaceCount = int l + 1;
                  c = int (length line) + 1
              in [span i c (c - spaceCount) c fm])
         | None \<Rightarrow> [])
      else [])"

definition no_brackets :: "string list \<Rightarrow> nat \<Rightarrow> string \<Rightarrow> location list" where
  "no_brackets fm i line =
     map (\<lambda>(p, l, g).
            let c = int p + search (re_char is_bracket) (take l (drop p line)) + 2
            in position i c fm)
         (exec_loop (re_char is_bracket) line 0)"

definition no_curly_braces :: "string list \<Rightarrow> nat \<Rightarrow> string \<Rightarrow> location list" where
  "no_curly_braces fm i line =
     map (\<lambda>(p, l, g).
            let c = int p + search (re_char is_curly) (take l (drop p line)) + 2
            in position i c fm)
         (exec_loop (re_char is_curly) line 0)"

definition incorrect_indentation :: "string list \<Rightarrow> nat \<Rightarrow> string \<Rightarrow> location list" where
  "incorrect_indentation fm i line =
     (let indentationCurr = search (re_char is_nonspace) line in
      if 0 < indentationCurr then
        (let found = search (re_char is_nonspace) (fm ! (i - 1));
             indentationPrev = (if found = - 1 then 0 else found)
         in if 2 < indentationCurr - indentationPrev then
              (let c = indentationCurr + 1 in [span i c 0 (c - 1) fm])
            else [])
      else [])"

definition no_repeating_spaces :: "string list \<Rightarrow> nat \<Rightarrow> string \<Rightarrow> location list" where
  "no_repeating_spaces fm i line =
     map (\<lambda>(p, l, g).
            let spaceCount = int g + 1;
                c = int p + search re_space_word (take l (drop p line)) + 2
            in span i c (c - spaceCount) (c - 1) fm)
         (exec_loop re_repeating_space line 0)"

definition one_space_after_colon :: "string list \<Rightarrow> nat \<Rightarrow> string \<Rightarrow> location list" where
  "one_space_after_colon fm i line =
     map (\<lambda>(p, l, g).
            let spaceCount = int g + 1;
                c = int p + search re_blank_nonspace (take l (drop p line)) + 2
            in span i c (c - spaceCount) (c - 1) fm)
         (exec_loop re_spaces_after_colon line 0)"

definition no_trailing_commas :: "string list \<Rightarrow> nat \<Rightarrow> string \<Rightarrow> location list" where
  "no_trailing_commas fm i line =
     (if search re_trailing_comma line \<noteq> - 1 then
        (let c = int (length line) + 1 in [position i c fm])
      else [])"

definition warn_commas :: "string list \<Rightarrow> nat \<Rightarrow> string \<Rightarrow> location list" where
  "warn_commas fm i line =
     map (\<lambda>(p, l, g). let c = int p + 2 in position i c fm)
         (exec_loop re_comma_char line 0)"

text \<open>
  The variables of \<open>lintLineByLine\<close> while it walks the lines: the lists of
  \<open>basicErrors\<close> and \<open>basicWarnings\<close>, the counters \<open>fileErrors\<close> and \<open>fileWarnings\<close>, and
  the counter \<open>fixableErrors\<close> of the module.
\<close>

record scan =
  missing :: "string list"
  wsBeforeColons :: "location list"
  emptyLines :: "nat list"
  quotes :: "location list"
  trailingSpaces :: "location list"
  brackets :: "location list"
  curlyBraces :: "location list"
  indentations :: "location list"
  trailingCommas :: "location list"
  unintendedWhitespace :: "location list"
  unintendedCommas :: "location list"
  scanErrors :: nat
  scanWarnings :: nat
  scanFixable :: nat

definition scan_start :: "string list \<Rightarrow> nat \<Rightarrow> scan" where
  "scan_start required fixable =
     \<lparr>missing = required, wsBeforeColons = [], emptyLines = [], quotes = [],
      trailingSpaces = [], brackets = [], curlyBraces = [], indentations = [],
      trailingCommas = [], unintendedWhitespace = [], unintendedCommas = [],
      scanErrors = 0, scanWarnings = 0, scanFixable = fixable\<rparr>"

text \<open>An error rule pushes what it found; each push counts in \<open>fileErrors\<close> and in
  \<open>fixableErrors\<close>. In fix mode the rule does not run.\<close>

definition error_rule ::
  "bool \<Rightarrow> ((location list \<Rightarrow> location list) \<Rightarrow> scan \<Rightarrow> scan) \<Rightarrow> location list \<Rightarrow> scan \<Rightarrow> scan" where
  "error_rule fx upd found acc =
     (if fx then acc
      else upd (\<lambda>xs. xs @ found)
             (acc\<lparr>scanErrors := scanErrors acc + length found,
                  scanFixable := scanFixable acc + length found\<rparr>))"

text \<open>A warning rule pushes what it found; each push counts in \<open>fileWarnings\<close>.\<close>

definition warning_rule ::
  "((location list \<Rightarrow> location list) \<Rightarrow> scan \<Rightarrow> scan) \<Rightarrow> location list \<Rightarrow> scan \<Rightarrow> scan" where
  "warning_rule upd found acc =
     upd (\<lambda>xs. xs @ found) (acc\<lparr>scanWarnings := scanWarnings acc + length found\<rparr>)"

text \<open>\<open>line.split(":")[0]\<close>.\<close>

definition before_colon :: "string \<Rightarrow> string" where
  "before_colon line = (case split_on (CHR '':'') line of [] \<Rightarrow> [] | x # _ \<Rightarrow> x)"

text \<open>A line that names an attribute takes the attribute from the list of the missing
  ones (\<open>indexOf\<close> and \<open>splice\<close>: its first occurrence).\<close>

definition check_attribute :: "string \<Rightarrow> scan \<Rightarrow> scan" where
  "check_attribute line acc =
     (if is_attribute_line line
      then acc\<lparr>missing := remove1 (trim (before_colon line)) (missing acc)\<rparr>
      else acc)"

text \<open>The body of the loop over the lines, for line \<open>i\<close>; \<open>fx\<close> is \<open>args.fix\<close>.\<close>

definition lintLine :: "bool \<Rightarrow> string list \<Rightarrow> nat \<Rightarrow> scan \<Rightarrow> scan" where
  "lintLine fx fm i acc =
     (let line = fm ! i;
          acc1 = check_attribute line acc
      in if \<not> fx \<and> trim line = [] then
           acc1\<lparr>emptyLines := emptyLines acc1 @ [i],
                scanErrors := scanErrors acc1 + 1,
                scanFixable := scanFixable acc1 + 1\<rparr>
         else
           (let acc2 = error_rule fx wsBeforeColons_update (no_whitespace_before_colon fm i line) acc1;
                acc3 = error_rule fx quotes_update (no_quotes fm i line) acc2;
                acc4 = error_rule fx trailingSpaces_update (no_trailing_spaces fm i line) acc3;
                acc5 = error_rule fx brackets_update (no_brackets fm i line) acc4;
                acc6 = error_rule fx curlyBraces_update (no_curly_braces fm i line) acc5;
                acc7 = error_rule fx indentations_update (incorrect_indentation fm i line) acc6;
                acc8 = warning_rule unintendedWhitespace_update (no_repeating_spaces fm i line) acc7;
                acc9 = (if fx then acc8
                        else warning_rule unintendedWhitespace_update (one_space_after_colon fm i line) acc8);
                acc10 = error_rule fx trailingCommas_update (no_trailing_commas fm i line) acc9
            in warning_rule unintendedCommas_update (warn_commas fm i line) acc10))"

definition basic_errors_of :: "scan \<Rightarrow> violations" where
  "basic_errors_of acc =
     [(msg_missing, map Attribute (missing acc)),
      (msg_ws_before_colon, map Loc (wsBeforeColons acc)),
      (msg_empty_lines, map Row (emptyLines acc)),
      (msg_quotes, map Loc (quotes acc)),
      (msg_trailing_spaces, map Loc (trailingSpaces acc)),
      (msg_brackets, map Loc (brackets acc)),
      (msg_curly_braces, map Loc (curlyBraces acc)),
      (msg_indentation, map Loc (indentations acc)),
      (msg_trailing_commas, map Loc (trailingCommas acc))]"

definition basic_warnings_of :: "scan \<Rightarrow> violations" where
  "basic_warnings_of acc =
     [(msg_whitespace, map Loc (unintendedWhitespace acc)),
      (msg_commas, map Loc (unintendedCommas acc))]"

text \<open>What \<open>lintLineByLine\<close> shows unless \<open>args.quiet\<close> is set: every message whose
  list is not empty.\<close>

definition show_basic :: "string \<Rightarrow> violations \<Rightarrow> violations \<Rightarrow> event list" where
  "show_basic fp errs warns =
     map (\<lambda>(message, es). ShowError (Some message) fp (PEntries es) (message \<in> set oneLineErrors))
         (filter (\<lambda>(message, es). es \<noteq> []) errs)
     @ map (\<lambda>(message, es). ShowWarning message fp (PEntries es) False)
           (filter (\<lambda>(message, es). es \<noteq> []) warns)"

text \<open>\<open>lintLineByLine(fm, filePath)\<close>: the loop runs over the lines 1 to
  \<open>fm.length - 2\<close>.\<close>

definition lintLineByLine :: "string list \<Rightarrow> string \<Rightarrow> 'a state \<Rightarrow> 'a state \<times> basic" where
  "lintLineByLine fm fp st =
     (let acc = fold (lintLine (fix_mode (args st)) fm) [1 ..< length fm - 1]
                  (scan_start (requiredAttributes (config st)) (fixableErrors st));
          shown = (if quiet (args st) then []
                   else show_basic fp (basic_errors_of acc) (basic_warnings_of acc))
      in (st\<lparr>fixableErrors := scanFixable acc, console := console st @ shown\<rparr>,
          \<lparr>basicFilePath = fp,
           basicFileErrors = scanErrors acc + length (missing acc),
           basicFileWarnings = scanWarnings acc,
           basicErrors = basic_errors_of acc,
           basicWarnings = basic_warnings_of acc\<rparr>))"

section \<open>extraLinters\<close>

text \<open>What JavaScript takes for false in \<open>!affected.row\<close> and \<open>!affected.snippet\<close>: a
  missing property, the number 0, the empty string.\<close>

definition falsy_number :: "int option \<Rightarrow> bool" where
  "falsy_number v = (v = None \<or> v = Some 0)"

definition falsy_string :: "string option \<Rightarrow> bool" where
  "falsy_string v = (v = None \<or> v = Some [])"

definition default_affected :: location where
  "default_affected =
     \<lparr>row = Some 0, col = Some 3, colStart = None, colEnd = None, snippet = None\<rparr>"

text \<open>The value \<open>logAffected\<close> handed to \<open>showOneline\<close> of \<open>errors.js\<close>.\<close>

definition logAffected :: "location option \<Rightarrow> payload" where
  "logAffected affected =
     (case affected of
        None \<Rightarrow> PNone
      | Some a \<Rightarrow>
          if \<not> falsy_number (col a) then PEntries [Loc a]
          else if \<not> falsy_number (row a) then (case row a of None \<Rightarrow> PNone | Some r \<Rightarrow> PRow r)
          else (case snippet a of None \<Rightarrow> PNone | Some t \<Rightarrow> PText t))"

definition extensionAffected :: "location option \<Rightarrow> location" where
  "extensionAffected affected =
     (case affected of
        None \<Rightarrow> default_affected
      | Some a \<Rightarrow> if \<not> falsy_number (row a) then a else default_affected)"

text \<open>
  One call \<open>showOneline(type, message, affected)\<close> of a plugin, on \<open>extraErrors\<close>,
  \<open>extraWarnings\<close> and the console.
\<close>

definition showOneline_callback ::
  "string \<Rightarrow> report \<Rightarrow> violations \<times> violations \<times> event list \<Rightarrow> violations \<times> violations \<times> event list" where
  "showOneline_callback fp rep acc =
     (case rep of (ty, message, affected) \<Rightarrow>
      case acc of (xErrors, xWarnings, out) \<Rightarrow>
        if (case affected of None \<Rightarrow> False
            | Some a \<Rightarrow> falsy_number (row a) \<and> falsy_string (snippet a))
        then acc
        else
          (let out' = out @ [ShowOneline ty message fp (logAffected affected)] in
           if ty = ''Error'' then
             (assign message (lookup xErrors message @ [Loc (extensionAffected affected)]) xErrors,
              xWarnings, out')
           else
             (xErrors,
              assign message (lookup xWarnings message @ [Loc (extensionAffected affected)]) xWarnings,
              out')))"

definition run_linter ::
  "'a \<Rightarrow> string list \<Rightarrow> string \<Rightarrow> 'a plugin \<Rightarrow> extra \<times> event list \<Rightarrow> extra \<times> event list" where
  "run_linter attributes fmLines fp linter acc =
     (case acc of (x, out) \<Rightarrow>
        (let run = linter attributes fmLines in
         case fold (showOneline_callback fp) (reports run) (extraErrors x, extraWarnings x, out) of
           (xErrors, xWarnings, out') \<Rightarrow>
             (\<lparr>extraErrors = xErrors, extraWarnings = xWarnings,
               extraFileErrors = extraFileErrors x + errors_returned run,
               extraFileWarnings = extraFileWarnings x + warnings_returned run\<rparr>, out')))"

definition extra_start :: extra where
  "extra_start = \<lparr>extraErrors = [], extraWarnings = [], extraFileErrors = 0, extraFileWarnings = 0\<rparr>"

definition extraLinters :: "'a \<Rightarrow> string list \<Rightarrow> string \<Rightarrow> 'a state \<Rightarrow> 'a state \<times> extra" where
  "extraLinters attributes fmLines fp st =
     (case extraLintFns (config st) of
        None \<Rightarrow> (st, extra_start)
      | Some linters \<Rightarrow>
          (case fold (run_linter attributes fmLines fp) linters (extra_start, []) of
             (x, out) \<Rightarrow> (st\<lparr>console := console st @ out\<rparr>, x)))"

section \<open>lintFile\<close>

text \<open>
  The YAML library is outside the repository: \<open>load\<close> and \<open>dump\<close> are parameters. Each
  returns a value or throws; \<open>'a\<close> is the type of the parsed attributes.
\<close>

type_synonym 'a loader = "string \<Rightarrow> js_error + 'a"

type_synonym 'a dumper = "'a \<Rightarrow> js_error + string"

text \<open>\<open>lines.indexOf(x, n)\<close>: the first index from \<open>n\<close> on that holds \<open>x\<close>, \<open>None\<close> for -1.\<close>

definition indexOf_from :: "string \<Rightarrow> nat \<Rightarrow> string list \<Rightarrow> nat option" where
  "indexOf_from x n xs = List.find (\<lambda>j. xs ! j = x) [n ..< length xs]"

text \<open>The lines of the file, after the empty line put in front: \<open>lines[1]\<close> is the first
  line of the file.\<close>

definition lines_of :: "string \<Rightarrow> string list" where
  "lines_of data = [] # split_on NL (remove_cr data)"

text \<open>
  The lines fix mode builds from the text \<open>dump\<close> returned: each line loses a comma at
  its end, an empty line and \<open>---\<close> go in front (\<open>unshift\<close> returns the new length), and
  the last line becomes \<open>---\<close>.
\<close>

definition fixed_lines :: "string \<Rightarrow> string list" where
  "fixed_lines dumped =
     (let fixedFm = [[], ''---''] @ map strip_trailing_comma (split_on NL dumped)
      in fixedFm[length fixedFm - 1 := ''---''])"

text \<open>What fix mode writes: the fixed lines from the second on, a line feed, and the
  lines of the file after the closing delimiter.\<close>

definition fixed_text :: "string list \<Rightarrow> string list \<Rightarrow> nat \<Rightarrow> string" where
  "fixed_text fixedFm lines fmClosingTagIndex =
     join_nl (drop 1 fixedFm) @ [NL] @ join_nl (drop (fmClosingTagIndex + 1) lines)"

text \<open>The snippet of the \<open>catch\<close> block: without a mark, \<open>row\<close> and \<open>col\<close> are
  \<open>undefined\<close>, and the template prints \<open>NaN\<close> and \<open>undefined\<close>.\<close>

definition catch_snippet :: "string list \<Rightarrow> (nat \<times> nat) option \<Rightarrow> string" where
  "catch_snippet fmLines mk =
     (case mk of
        None \<Rightarrow> ''NaN | undefined'' @ [NL] @ ''undefined | undefined'' @ [NL]
                @ ''----^'' @ [NL] @ ''NaN | undefined'' @ [NL]
      | Some (ln, cl) \<Rightarrow> getSnippet fmLines (int cl + 1) (ln + 1))"

text \<open>The \<open>catch\<close> block of \<open>lintFile\<close>; \<open>has_text\<close> tells whether the text was passed to
  \<open>lintFile\<close>.\<close>

definition parse_failure ::
  "bool \<Rightarrow> string \<Rightarrow> string list \<Rightarrow> js_error \<Rightarrow> 'a state \<Rightarrow> 'a state \<times> outcome" where
  "parse_failure has_text fp fmLines e st =
     (let r = map_option (\<lambda>(ln, cl). int ln + 1) (mark e);
          c = map_option (\<lambda>(ln, cl). int cl + 1) (mark e);
          logged = (if has_text then [ConsoleLog e] else []);
          shown = (if quiet (args st) then []
                   else [ShowError (reason e) fp
                           (PEntries [Loc \<lparr>row = r, col = c, colStart = None, colEnd = None,
                                           snippet = Some (catch_snippet fmLines (mark e))\<rparr>])
                           False]);
          st1 = st\<lparr>errorNumber := errorNumber st + 1, console := console st @ logged @ shown\<rparr>
      in (st1,
          \<lparr>filePath = fp, fileErrors = errorNumber st1, fileWarnings = warningNumber st1,
           errors = CustomError (reason e) r c, warnings = []\<rparr>))"

text \<open>The branch of a file without front matter.\<close>

definition no_front_matter :: "string \<Rightarrow> 'a state \<Rightarrow> 'a state \<times> outcome" where
  "no_front_matter fp st =
     (let shown = (if quiet (args st) then []
                   else if mandatory (config st)
                   then [ShowError (Some ''front matter not found'') fp
                           (PText ''Make sure front matter is at the beginning of the file.'') True]
                   else [ShowWarning ''front matter not found'' fp
                           (PText ''Make sure front matter is at the beginning of the file.'') True]);
          st1 = st\<lparr>console := console st @ shown\<rparr>;
          st2 = (if mandatory (config st)
                 then st1\<lparr>exitCode := Some 1, errorNumber := errorNumber st1 + 1\<rparr>
                 else st1\<lparr>warningNumber := warningNumber st1 + 1\<rparr>)
      in (st2,
          \<lparr>filePath = fp, fileErrors = errorNumber st2, fileWarnings = warningNumber st2,
           errors = NoFrontMatter, warnings = []\<rparr>))"

text \<open>The rules and the plugins on the lines \<open>fmLines\<close>, and the object \<open>lintFile\<close>
  resolves to.\<close>

definition lint_parsed :: "'a \<Rightarrow> string list \<Rightarrow> string \<Rightarrow> 'a state \<Rightarrow> 'a state \<times> outcome" where
  "lint_parsed attributes fmLines fp st =
     (case lintLineByLine fmLines fp st of (st1, b) \<Rightarrow>
      case extraLinters attributes fmLines fp st1 of (st2, x) \<Rightarrow>
        (let st3 = st2\<lparr>errorNumber := errorNumber st2 + (basicFileErrors b + extraFileErrors x),
                        warningNumber := warningNumber st2 + (basicFileWarnings b + extraFileWarnings x)\<rparr>
         in (st3,
             \<lparr>filePath = fp, fileErrors = errorNumber st3, fileWarnings = warningNumber st3,
              errors = Violations (spread (basicErrors b) (extraErrors x)),
              warnings = spread (basicWarnings b) (extraWarnings x)\<rparr>)))"

text \<open>
  The test \<open>!lines[1].startsWith("---") || fmClosingTagIndex === -1\<close>: \<open>None\<close> where
  the front matter is not found, and the index of the closing delimiter otherwise.
\<close>

definition front_matter_end :: "string list \<Rightarrow> nat option" where
  "front_matter_end lines =
     (case indexOf_from ''---'' 2 lines of
        None \<Rightarrow> None
      | Some fmClosingTagIndex \<Rightarrow>
          if take 3 (lines ! 1) \<noteq> ''---'' then None else Some fmClosingTagIndex)"

text \<open>The text handed to \<open>load\<close>: \<open>fmLines.filter((l) => l !== "---").join("\n")\<close>.\<close>

definition yaml_source :: "string list \<Rightarrow> string" where
  "yaml_source fmLines = join_nl (filter (\<lambda>l. l \<noteq> ''---'') fmLines)"

text \<open>\<open>lintFile\<close> from the text \<open>data\<close> on. Writing the file is taken to succeed.\<close>

definition lint_data ::
  "'a loader \<Rightarrow> 'a dumper \<Rightarrow> bool \<Rightarrow> string \<Rightarrow> string \<Rightarrow> 'a state \<Rightarrow> 'a state \<times> outcome" where
  "lint_data load dump has_text fp data st =
     (let lines = lines_of data in
      case front_matter_end lines of
        None \<Rightarrow> no_front_matter fp st
      | Some fmClosingTagIndex \<Rightarrow>
          (let fmLines = take (fmClosingTagIndex + 1) lines in
           case load (yaml_source fmLines) of
             Inl e \<Rightarrow> parse_failure has_text fp fmLines e st
           | Inr attributes \<Rightarrow>
               if fix_mode (args st) then
                 (case dump attributes of
                    Inl e \<Rightarrow> parse_failure has_text fp fmLines e st
                  | Inr dumped \<Rightarrow>
                      (let fixedFm = fixed_lines dumped;
                           st1 = st\<lparr>files := (files st)
                                   (fp \<mapsto> fixed_text fixedFm lines fmClosingTagIndex)\<rparr>
                       in lint_parsed attributes fixedFm fp st1))
               else lint_parsed attributes fmLines fp st))"

text \<open>
  \<open>lintFile(filePath, text, a, c)\<close>. A text that is not empty is linted with the
  arguments and the configuration passed, which become those of the module; otherwise
  the file is read, and a file that cannot be read rejects the promise.
\<close>

definition lintFile ::
  "'a loader \<Rightarrow> 'a dumper \<Rightarrow> string \<Rightarrow> string \<Rightarrow> arguments \<Rightarrow> 'a configuration \<Rightarrow> 'a state
   \<Rightarrow> 'a state \<times> (js_error + outcome)" where
  "lintFile load dump fp text a c st =
     (if text \<noteq> [] then
        (case lint_data load dump True fp text (st\<lparr>args := a, config := c\<rparr>) of
           (st', out) \<Rightarrow> (st', Inr out))
      else
        (case files st fp of
           None \<Rightarrow> (st, Inl \<lparr>reason = None, mark = None\<rparr>)
         | Some data \<Rightarrow>
             (case lint_data load dump False fp data st of
                (st', out) \<Rightarrow> (st', Inr out))))"

section \<open>Notions the statements use\<close>

text \<open>The text \<open>lintFile\<close> lints: the text passed, or else the content of the file.\<close>

definition linted_text :: "string \<Rightarrow> string \<Rightarrow> 'a state \<Rightarrow> string option" where
  "linted_text fp text st = (if text \<noteq> [] then Some text else files st fp)"

text \<open>The state \<open>lintFile\<close> works in: a text comes with its arguments and configuration.\<close>

definition entry_state :: "string \<Rightarrow> arguments \<Rightarrow> 'a configuration \<Rightarrow> 'a state \<Rightarrow> 'a state" where
  "entry_state text a c st = (if text \<noteq> [] then st\<lparr>args := a, config := c\<rparr> else st)"

text \<open>The required attributes that the lines \<open>js\<close> of \<open>fm\<close> leave missing.\<close>

definition still_missing :: "string list \<Rightarrow> nat list \<Rightarrow> string list \<Rightarrow> string list" where
  "still_missing fm js required =
     fold (\<lambda>i req. if is_attribute_line (fm ! i)
                    then remove1 (trim (before_colon (fm ! i))) req else req)
       js required"

text \<open>The row an entry reports.\<close>

definition entry_row :: "entry \<Rightarrow> int option" where
  "entry_row e = (case e of Attribute _ \<Rightarrow> None | Row n \<Rightarrow> Some (int n) | Loc v \<Rightarrow> row v)"

text \<open>The column of the leading white space of a line: the number of white-space
  characters in front of its first other character, and 0 for a line of white space
  only.\<close>

definition leading :: "string \<Rightarrow> int" where
  "leading s = (if list_all is_space s then 0 else int (length (takeWhile is_space s)))"

text \<open>The length of the run of white space that ends a line.\<close>

definition trailing_run :: "string \<Rightarrow> nat" where
  "trailing_run s = length (takeWhile is_space (rev s))"

text \<open>Two states that differ in the console and in \<open>args.quiet\<close> at most.\<close>

definition agree :: "'a state \<Rightarrow> 'a state \<Rightarrow> bool" where
  "agree s t =
     (fix_mode (args s) = fix_mode (args t) \<and> config s = config t
      \<and> errorNumber s = errorNumber t \<and> fixableErrors s = fixableErrors t
      \<and> warningNumber s = warningNumber t \<and> exitCode s = exitCode t \<and> files s = files t)"

subsection \<open>Concrete inputs\<close>

text \<open>The state of the module when a run starts.\<close>

definition start_state :: "arguments \<Rightarrow> 'a configuration \<Rightarrow> 'a state" where
  "start_state a c =
     \<lparr>args = a, config = c, errorNumber = 0, fixableErrors = 0, warningNumber = 0,
      exitCode = None, files = Map.empty, console = []\<rparr>"

definition plain_config :: "string configuration" where
  "plain_config = \<lparr>requiredAttributes = [], mandatory = True, extraLintFns = None\<rparr>"

definition fixing_state :: "string state" where
  "fixing_state = start_state \<lparr>fix_mode = True, quiet = True\<rparr> plain_config"

definition linting_state :: "string state" where
  "linting_state = start_state \<lparr>fix_mode = False, quiet = True\<rparr> plain_config"

text \<open>
  A stand-in for the YAML library on front matter that is already written the way
  \<open>dump\<close> writes it (block style, one space after each colon): such a text parses to a
  mapping that \<open>dump\<close> writes back as the same text, with a line feed at the end. The
  stand-in takes the text itself for the mapping. It serves to evaluate \<open>lintFile\<close> at
  concrete files of that form.
\<close>

definition canonical_load :: "string loader" where
  "canonical_load s = Inr (dropWhile (\<lambda>c. c = NL) s)"

definition canonical_dump :: "string dumper" where
  "canonical_dump a = Inr (a @ [NL])"



text \<open>A loader that rejects every text at the third line, as the library rejects a
  flow sequence that is never closed.\<close>

definition rejecting_load :: "string loader" where
  "rejecting_load s =
     Inl \<lparr>reason = Some ''unexpected end of the stream within a flow collection'',
          mark = Some (2, 0)\<rparr>"





section \<open>The loops end\<close>

lemma first_match_bounds:
  "first_match m q s = Some (p, l, g) \<Longrightarrow> q \<le> p \<and> p \<le> q + length s"
  by (induction s arbitrary: q) (fastforce split: option.splits)+

lemma exec_bounds:
  "exec m lastIndex s = Some (p, l, g) \<Longrightarrow> lastIndex \<le> p \<and> p \<le> length s"
  unfolding exec_def by (auto split: if_splits dest!: first_match_bounds)

termination exec_loop
  by (relation "measure (\<lambda>(m, line, lastIndex). Suc (length line) - lastIndex)")
     (auto dest!: exec_bounds)

declare exec_loop.simps [simp del]

lemma first_match_at:
  "first_match m q s = Some (p, l, g) \<Longrightarrow> m (drop (p - q) s) = Some (l, g)"
proof (induction s arbitrary: q)
  case Nil
  then show ?case by (auto split: option.splits)
next
  case (Cons c cs)
  show ?case
  proof (cases "m (c # cs)")
    case None
    with Cons.prems have fm: "first_match m (Suc q) cs = Some (p, l, g)" by simp
    from first_match_bounds[OF fm] have "Suc q \<le> p" by simp
    then have "p - q = Suc (p - Suc q)" by simp
    with Cons.IH[OF fm] show ?thesis by simp
  next
    case (Some a)
    with Cons.prems show ?thesis by (cases a) auto
  qed
qed

lemma first_match_re_char:
  "\<forall>x \<in> set ws. \<not> P x \<Longrightarrow> P c \<Longrightarrow>
   first_match (re_char P) q (ws @ c # r) = Some (q + length ws, 1, 0)"
  by (induction ws arbitrary: q) (auto simp: re_char_def)

lemma re_ws_colon_shape:
  assumes "re_ws_colon s = Some (l, g)"
  shows "g = length (takeWhile is_space s) \<and> l = g + 1 \<and> 0 < g
    \<and> take l s = takeWhile is_space s @ '':''"
proof -
  let ?w = "length (takeWhile is_space s)"
  from assms have w: "0 < ?w" and l: "l = ?w + 1" and g: "g = ?w"
    and d: "(case drop ?w s of [] \<Rightarrow> False | c # _ \<Rightarrow> c = CHR '':'')"
    by (auto simp: re_ws_colon_def Let_def split: if_splits)
  from d obtain r where r: "drop ?w s = CHR '':'' # r" by (auto split: list.splits)
  have "s = take ?w s @ drop ?w s" by simp
  also have "take ?w s = takeWhile is_space s"
    by (metis takeWhile_eq_take)
  finally have s: "s = takeWhile is_space s @ CHR '':'' # r" using r by simp
  have "take l s = take (?w + 1) (takeWhile is_space s @ CHR '':'' # r)" using s l by simp
  also have "\<dots> = takeWhile is_space s @ '':''" by simp
  finally show ?thesis using w l g by simp
qed

text \<open>In a match of \<open>/(\s+):/\<close> the colon stands right after the white space, so the
  loop of that rule moves \<open>lastIndex\<close> forward.\<close>

lemma wsbc_advance:
  assumes "exec re_ws_colon lastIndex line = Some (p, l, g)"
  shows "search (re_char is_colon) (take l (drop p line)) = int g \<and> 0 < g
    \<and> lastIndex \<le> p \<and> p + g \<le> length line"
proof -
  from assms have fm: "first_match re_ws_colon lastIndex (drop lastIndex line) = Some (p, l, g)"
    and le: "lastIndex \<le> length line"
    by (auto simp: exec_def split: if_splits)
  from first_match_bounds[OF fm] have b: "lastIndex \<le> p" "p \<le> length line" using le by auto
  from first_match_at[OF fm] b have m: "re_ws_colon (drop p line) = Some (l, g)" by simp
  from re_ws_colon_shape[OF m]
  have sh: "g = length (takeWhile is_space (drop p line))" "l = g + 1" "0 < g"
    "take l (drop p line) = takeWhile is_space (drop p line) @ '':''" by auto
  have nc: "\<forall>x \<in> set (takeWhile is_space (drop p line)). \<not> is_colon x"
    by (auto simp: is_colon_def is_space_def dest!: set_takeWhileD)
  have "first_match (re_char is_colon) 0 (take l (drop p line)) = Some (g, 1, 0)"
  proof -
    have c: "is_colon (CHR '':'')" by (simp add: is_colon_def)
    show ?thesis using first_match_re_char[OF nc c, of 0 "[]"] sh by simp
  qed
  then have "search (re_char is_colon) (take l (drop p line)) = int g" by (simp add: search_def)
  moreover have "p + g \<le> length line"
  proof -
    have "g \<le> length (drop p line)" using sh(1) by (metis length_takeWhile_le)
    then show ?thesis using b by simp
  qed
  ultimately show ?thesis using sh b by simp
qed

termination wsbc_loop
  by (relation "measure (\<lambda>(line, lastIndex). Suc (length line) - lastIndex)")
     (auto simp: wsbc_col_def dest!: wsbc_advance)

declare wsbc_loop.simps [simp del]

section \<open>The loop over the lines\<close>

lemma fold_append_field:
  assumes "\<And>i acc. f (step i acc) = f acc @ g i"
  shows "f (fold step js acc) = f acc @ concat (map g js)"
  by (induction js arbitrary: acc) (simp_all add: assms)

lemma fold_keep_field:
  assumes "\<And>i acc. f (step i acc) = f acc"
  shows "f (fold step js acc) = f acc"
  by (induction js arbitrary: acc) (simp_all add: assms)

lemma fold_add_field:
  fixes f :: "'s \<Rightarrow> nat"
  assumes "\<And>i acc. f (step i acc) = f acc + g i"
  shows "f (fold step js acc) = f acc + sum_list (map g js)"
  by (induction js arbitrary: acc) (simp_all add: assms)

lemmas lintLine_defs = lintLine_def error_rule_def warning_rule_def check_attribute_def Let_def

lemmas msg_defs = msg_missing_def msg_ws_before_colon_def msg_empty_lines_def msg_quotes_def
  msg_trailing_spaces_def msg_brackets_def msg_curly_braces_def msg_indentation_def
  msg_trailing_commas_def msg_whitespace_def msg_commas_def

lemma trailingSpaces_lintLine:
  "trailingSpaces (lintLine fx fm i acc) =
     trailingSpaces acc
     @ (if fx \<or> trim (fm ! i) = [] then [] else no_trailing_spaces fm i (fm ! i))"
  by (cases fx; cases "trim (fm ! i) = []"; simp add: lintLine_defs)

lemma indentations_lintLine:
  "indentations (lintLine fx fm i acc) =
     indentations acc
     @ (if fx \<or> trim (fm ! i) = [] then [] else incorrect_indentation fm i (fm ! i))"
  by (cases fx; cases "trim (fm ! i) = []"; simp add: lintLine_defs)

lemma unintendedCommas_lintLine:
  "unintendedCommas (lintLine fx fm i acc) =
     unintendedCommas acc
     @ (if \<not> fx \<and> trim (fm ! i) = [] then [] else warn_commas fm i (fm ! i))"
  by (cases fx; cases "trim (fm ! i) = []"; simp add: lintLine_defs)

lemma unintendedWhitespace_lintLine:
  "unintendedWhitespace (lintLine fx fm i acc) =
     unintendedWhitespace acc
     @ (if \<not> fx \<and> trim (fm ! i) = [] then []
        else no_repeating_spaces fm i (fm ! i)
             @ (if fx then [] else one_space_after_colon fm i (fm ! i)))"
  by (cases fx; cases "trim (fm ! i) = []"; simp add: lintLine_defs)

lemma missing_lintLine:
  "missing (lintLine fx fm i acc) =
     (if is_attribute_line (fm ! i) then remove1 (trim (before_colon (fm ! i))) (missing acc)
      else missing acc)"
  by (cases fx; cases "trim (fm ! i) = []"; simp add: lintLine_defs)

lemma missing_fold:
  "missing (fold (lintLine fx fm) js acc) = still_missing fm js (missing acc)"
  unfolding still_missing_def
  by (induction js arbitrary: acc) (simp_all add: missing_lintLine)

lemma lookup_basic_errors:
  "lookup (basic_errors_of acc) msg_trailing_spaces = map Loc (trailingSpaces acc)"
  "lookup (basic_errors_of acc) msg_indentation = map Loc (indentations acc)"
  "lookup (basic_errors_of acc) msg_missing = map Attribute (missing acc)"
  by (simp_all add: lookup_def basic_errors_of_def msg_defs)

lemma lookup_basic_warnings:
  "lookup (basic_warnings_of acc) msg_whitespace = map Loc (unintendedWhitespace acc)"
  "lookup (basic_warnings_of acc) msg_commas = map Loc (unintendedCommas acc)"
  by (simp_all add: lookup_def basic_warnings_of_def msg_defs)

subsection \<open>Fix mode\<close>

lemma fix_keeps_errors:
  "wsBeforeColons (lintLine True fm i acc) = wsBeforeColons acc"
  "emptyLines (lintLine True fm i acc) = emptyLines acc"
  "quotes (lintLine True fm i acc) = quotes acc"
  "trailingSpaces (lintLine True fm i acc) = trailingSpaces acc"
  "brackets (lintLine True fm i acc) = brackets acc"
  "curlyBraces (lintLine True fm i acc) = curlyBraces acc"
  "indentations (lintLine True fm i acc) = indentations acc"
  "trailingCommas (lintLine True fm i acc) = trailingCommas acc"
  "scanErrors (lintLine True fm i acc) = scanErrors acc"
  "scanFixable (lintLine True fm i acc) = scanFixable acc"
  by (simp_all add: lintLine_defs)

lemma fix_warnings:
  "scanWarnings (lintLine True fm i acc) =
     scanWarnings acc
     + (length (no_repeating_spaces fm i (fm ! i)) + length (warn_commas fm i (fm ! i)))"
  by (simp add: lintLine_defs)

lemma fix_scan:
  "wsBeforeColons (fold (lintLine True fm) js acc) = wsBeforeColons acc"
  "emptyLines (fold (lintLine True fm) js acc) = emptyLines acc"
  "quotes (fold (lintLine True fm) js acc) = quotes acc"
  "trailingSpaces (fold (lintLine True fm) js acc) = trailingSpaces acc"
  "brackets (fold (lintLine True fm) js acc) = brackets acc"
  "curlyBraces (fold (lintLine True fm) js acc) = curlyBraces acc"
  "indentations (fold (lintLine True fm) js acc) = indentations acc"
  "trailingCommas (fold (lintLine True fm) js acc) = trailingCommas acc"
  "scanErrors (fold (lintLine True fm) js acc) = scanErrors acc"
  "scanFixable (fold (lintLine True fm) js acc) = scanFixable acc"
  by (rule fold_keep_field, rule fix_keeps_errors)+

lemma fix_scan_warnings:
  "unintendedWhitespace (fold (lintLine True fm) js acc) =
     unintendedWhitespace acc @ concat (map (\<lambda>i. no_repeating_spaces fm i (fm ! i)) js)"
  "unintendedCommas (fold (lintLine True fm) js acc) =
     unintendedCommas acc @ concat (map (\<lambda>i. warn_commas fm i (fm ! i)) js)"
    apply (rule fold_append_field[where g = "\<lambda>i. no_repeating_spaces fm i (fm ! i)"])
    apply (simp add: unintendedWhitespace_lintLine)
   apply (rule fold_append_field[where g = "\<lambda>i. warn_commas fm i (fm ! i)"])
  apply (simp add: unintendedCommas_lintLine)
  done

section \<open>lintFile and the text it lints\<close>

lemma lintFile_lint_data:
  assumes "linted_text fp text st = Some data"
  shows "lintFile load dump fp text a c st =
    (case lint_data load dump (text \<noteq> []) fp data (entry_state text a c st) of
       (st', out) \<Rightarrow> (st', Inr out))"
  using assms by (auto simp: lintFile_def linted_text_def entry_state_def split: if_splits)

subsection \<open>States that agree up to the console and the quiet flag\<close>

lemma agree_lintLineByLine:
  assumes "agree s t"
  shows "snd (lintLineByLine fm fp s) = snd (lintLineByLine fm fp t)
    \<and> agree (fst (lintLineByLine fm fp s)) (fst (lintLineByLine fm fp t))"
  using assms by (simp add: lintLineByLine_def agree_def Let_def)

lemma agree_extraLinters:
  assumes "agree s t"
  shows "snd (extraLinters attributes fm fp s) = snd (extraLinters attributes fm fp t)
    \<and> agree (fst (extraLinters attributes fm fp s)) (fst (extraLinters attributes fm fp t))"
  using assms by (simp add: extraLinters_def agree_def split: option.splits prod.splits)

lemma agree_lint_parsed:
  assumes "agree s t"
  shows "snd (lint_parsed attributes fm fp s) = snd (lint_parsed attributes fm fp t)
    \<and> agree (fst (lint_parsed attributes fm fp s)) (fst (lint_parsed attributes fm fp t))"
proof -
  obtain s1 b where s1: "lintLineByLine fm fp s = (s1, b)"
    by (cases "lintLineByLine fm fp s")
  obtain t1 b' where t1: "lintLineByLine fm fp t = (t1, b')"
    by (cases "lintLineByLine fm fp t")
  from agree_lintLineByLine[OF assms, of fm fp] s1 t1
  have b: "b' = b" and a1: "agree s1 t1" by auto
  obtain s2 x where s2: "extraLinters attributes fm fp s1 = (s2, x)"
    by (cases "extraLinters attributes fm fp s1")
  obtain t2 x' where t2: "extraLinters attributes fm fp t1 = (t2, x')"
    by (cases "extraLinters attributes fm fp t1")
  from agree_extraLinters[OF a1, of attributes fm fp] s2 t2
  have x: "x' = x" and a2: "agree s2 t2" by auto
  show ?thesis using a2 by (simp add: lint_parsed_def s1 t1 s2 t2 b x Let_def agree_def)
qed

lemma agree_parse_failure:
  assumes "agree s t"
  shows "snd (parse_failure h fp fm e s) = snd (parse_failure h fp fm e t)
    \<and> agree (fst (parse_failure h fp fm e s)) (fst (parse_failure h fp fm e t))"
  using assms by (simp add: parse_failure_def agree_def Let_def)

lemma agree_no_front_matter:
  assumes "agree s t"
  shows "snd (no_front_matter fp s) = snd (no_front_matter fp t)
    \<and> agree (fst (no_front_matter fp s)) (fst (no_front_matter fp t))"
  using assms by (simp add: no_front_matter_def agree_def Let_def)

lemma agree_files:
  "agree s t \<Longrightarrow>
   agree (s\<lparr>files := (files s)(fp \<mapsto> w)\<rparr>) (t\<lparr>files := (files t)(fp \<mapsto> w)\<rparr>)"
  by (simp add: agree_def)

lemma agree_lint_data:
  assumes "agree s t"
  shows "snd (lint_data load dump h fp data s) = snd (lint_data load dump h fp data t)
    \<and> agree (fst (lint_data load dump h fp data s)) (fst (lint_data load dump h fp data t))"
proof -
  have fx: "fix_mode (args s) = fix_mode (args t)" and fl: "files s = files t"
    using assms by (simp_all add: agree_def)
  show ?thesis
    unfolding lint_data_def Let_def fx fl
    using agree_no_front_matter[OF assms] agree_parse_failure[OF assms]
      agree_lint_parsed[OF assms] agree_lint_parsed[OF agree_files[OF assms]]
    by (simp add: fl split: option.splits sum.splits)
qed

section \<open>What the rules find\<close>

lemma dropWhile_all_space:
  "(\<forall>x \<in> set (dropWhile is_space s). is_space x) \<longleftrightarrow> (\<forall>x \<in> set s. is_space x)"
proof
  assume a: "\<forall>x \<in> set (dropWhile is_space s). is_space x"
  have "dropWhile is_space s = []"
  proof (rule ccontr)
    assume n: "dropWhile is_space s \<noteq> []"
    then have "\<not> is_space (hd (dropWhile is_space s))" by (rule hd_dropWhile)
    moreover have "hd (dropWhile is_space s) \<in> set (dropWhile is_space s)" using n by simp
    ultimately show False using a by blast
  qed
  then show "\<forall>x \<in> set s. is_space x" by (simp add: dropWhile_eq_Nil_conv)
next
  assume "\<forall>x \<in> set s. is_space x"
  then show "\<forall>x \<in> set (dropWhile is_space s). is_space x"
    by (meson set_dropWhileD)
qed

lemma trim_Nil_iff: "trim s = [] \<longleftrightarrow> list_all is_space s"
proof -
  have "trim s = [] \<longleftrightarrow> (\<forall>x \<in> set (dropWhile is_space s). is_space x)"
    unfolding trim_def by (simp add: dropWhile_eq_Nil_conv)
  then show ?thesis by (simp add: dropWhile_all_space list_all_iff)
qed

lemma first_match_None:
  "first_match m q s = None \<Longrightarrow> j \<le> length s \<Longrightarrow> m (drop j s) = None"
proof (induction s arbitrary: q j)
  case Nil
  then show ?case by (auto split: option.splits)
next
  case (Cons c cs)
  from Cons.prems(1) have n: "m (c # cs) = None" and r: "first_match m (Suc q) cs = None"
    by (auto split: option.splits)
  show ?case
  proof (cases j)
    case 0
    then show ?thesis using n by simp
  next
    case (Suc j')
    then show ?thesis using Cons.IH[OF r, of j'] Cons.prems(2) by simp
  qed
qed

lemma first_match_leftmost:
  "first_match m q s = Some (p, l, g) \<Longrightarrow> j < p - q \<Longrightarrow> m (drop j s) = None"
proof (induction s arbitrary: q j)
  case Nil
  then show ?case using first_match_bounds[OF Nil.prems(1)] by simp
next
  case (Cons c cs)
  show ?case
  proof (cases "m (c # cs)")
    case None
    with Cons.prems(1) have r: "first_match m (Suc q) cs = Some (p, l, g)" by simp
    show ?thesis
    proof (cases j)
      case 0
      then show ?thesis using None by simp
    next
      case (Suc j')
      then have "j' < p - Suc q" using Cons.prems(2) by simp
      from Cons.IH[OF r this] show ?thesis using Suc by simp
    qed
  next
    case (Some a)
    with Cons.prems(1) have "p = q" by (cases a) auto
    with Cons.prems(2) show ?thesis by simp
  qed
qed

lemma exec_loop_member:
  "(p, l, g) \<in> set (exec_loop m line lastIndex) \<longleftrightarrow>
     lastIndex \<le> p \<and> p \<le> length line \<and> m (drop p line) = Some (l, g)"
proof (induction m line lastIndex rule: exec_loop.induct)
  case (1 m line lastIndex)
  show ?case
  proof (cases "exec m lastIndex line")
    case None
    have "\<not> (lastIndex \<le> p \<and> p \<le> length line \<and> m (drop p line) = Some (l, g))"
    proof (cases "length line < lastIndex")
      case True
      then show ?thesis by simp
    next
      case False
      with None have fm: "first_match m lastIndex (drop lastIndex line) = None"
        by (simp add: exec_def)
      show ?thesis
      proof
        assume a: "lastIndex \<le> p \<and> p \<le> length line \<and> m (drop p line) = Some (l, g)"
        then have "p - lastIndex \<le> length (drop lastIndex line)" by auto
        from first_match_None[OF fm this] a show False by simp
      qed
    qed
    then show ?thesis using None by (subst exec_loop.simps) simp
  next
    case (Some a)
    obtain p0 l0 g0 where a: "a = (p0, l0, g0)" by (cases a)
    from Some a have ex: "exec m lastIndex line = Some (p0, l0, g0)" by simp
    from exec_bounds[OF ex] have b: "lastIndex \<le> p0" "p0 \<le> length line" by auto
    from ex b have fm: "first_match m lastIndex (drop lastIndex line) = Some (p0, l0, g0)"
      by (simp add: exec_def)
    from first_match_at[OF fm] b have at: "m (drop p0 line) = Some (l0, g0)" by simp
    have before: "\<And>j. lastIndex \<le> j \<Longrightarrow> j < p0 \<Longrightarrow> m (drop j line) = None"
    proof -
      fix j assume j: "lastIndex \<le> j" "j < p0"
      then have "j - lastIndex < p0 - lastIndex" by simp
      from first_match_leftmost[OF fm this] j show "m (drop j line) = None" by simp
    qed
    have ih: "(p, l, g) \<in> set (exec_loop m line (p0 + 1)) \<longleftrightarrow>
       p0 + 1 \<le> p \<and> p \<le> length line \<and> m (drop p line) = Some (l, g)"
      using "1.IH"[OF ex refl refl] .
    have "(p, l, g) \<in> set (exec_loop m line lastIndex) \<longleftrightarrow>
        (p, l, g) = (p0, l0, g0) \<or> (p, l, g) \<in> set (exec_loop m line (p0 + 1))"
      using ex by (subst exec_loop.simps) simp
    also have "\<dots> \<longleftrightarrow> lastIndex \<le> p \<and> p \<le> length line \<and> m (drop p line) = Some (l, g)"
    proof (cases "p < p0")
      case True
      then show ?thesis using ih before[of p] b by auto
    next
      case False
      then show ?thesis using ih at b by (cases "p = p0") auto
    qed
    finally show ?thesis .
  qed
qed

lemma scan_lists:
  "unintendedCommas (fold (lintLine fx fm) js (scan_start r n)) =
     concat (map (\<lambda>j. if \<not> fx \<and> trim (fm ! j) = [] then [] else warn_commas fm j (fm ! j)) js)"
  "trailingSpaces (fold (lintLine fx fm) js (scan_start r n)) =
     concat (map (\<lambda>j. if fx \<or> trim (fm ! j) = [] then [] else no_trailing_spaces fm j (fm ! j)) js)"
  "indentations (fold (lintLine fx fm) js (scan_start r n)) =
     concat (map (\<lambda>j. if fx \<or> trim (fm ! j) = [] then [] else incorrect_indentation fm j (fm ! j)) js)"
proof -
  show "unintendedCommas (fold (lintLine fx fm) js (scan_start r n)) =
     concat (map (\<lambda>j. if \<not> fx \<and> trim (fm ! j) = [] then [] else warn_commas fm j (fm ! j)) js)"
    using fold_append_field[where f = unintendedCommas and step = "lintLine fx fm"
        and g = "\<lambda>j. if \<not> fx \<and> trim (fm ! j) = [] then [] else warn_commas fm j (fm ! j)",
        OF unintendedCommas_lintLine, of js "scan_start r n"]
    by (simp add: scan_start_def)
  show "trailingSpaces (fold (lintLine fx fm) js (scan_start r n)) =
     concat (map (\<lambda>j. if fx \<or> trim (fm ! j) = [] then [] else no_trailing_spaces fm j (fm ! j)) js)"
    using fold_append_field[where f = trailingSpaces and step = "lintLine fx fm"
        and g = "\<lambda>j. if fx \<or> trim (fm ! j) = [] then [] else no_trailing_spaces fm j (fm ! j)",
        OF trailingSpaces_lintLine, of js "scan_start r n"]
    by (simp add: scan_start_def)
  show "indentations (fold (lintLine fx fm) js (scan_start r n)) =
     concat (map (\<lambda>j. if fx \<or> trim (fm ! j) = [] then [] else incorrect_indentation fm j (fm ! j)) js)"
    using fold_append_field[where f = indentations and step = "lintLine fx fm"
        and g = "\<lambda>j. if fx \<or> trim (fm ! j) = [] then [] else incorrect_indentation fm j (fm ! j)",
        OF indentations_lintLine, of js "scan_start r n"]
    by (simp add: scan_start_def)
qed

lemma position_eq: "position i c fm = position j c' fm \<longleftrightarrow> i = j \<and> c = c'"
  by (auto simp: position_def)

lemma re_comma_char_at:
  "re_comma_char (drop k line) = Some (l, g) \<longleftrightarrow>
     l = 2 \<and> g = 0 \<and> k < length line \<and> line ! k = CHR '','' \<and> Suc k < length line
     \<and> \<not> is_line_terminator (line ! Suc k)"
proof (cases "Suc k < length line")
  case True
  then have "drop k line = line ! k # line ! Suc k # drop (Suc (Suc k)) line"
    by (simp add: Cons_nth_drop_Suc)
  then show ?thesis using True by (auto simp: re_comma_char_def)
next
  case False
  then have "length (drop k line) \<le> 1" by simp
  then have "drop k line = [] \<or> (\<exists>c. drop k line = [c])"
    by (cases "drop k line") auto
  then show ?thesis using False by (auto simp: re_comma_char_def)
qed

lemma warn_commas_member:
  "position i (int k + 2) fm \<in> set (warn_commas fm j line) \<longleftrightarrow>
     i = j \<and> line ! k = CHR '','' \<and> Suc k < length line \<and> \<not> is_line_terminator (line ! Suc k)"
proof -
  have "position i (int k + 2) fm \<in> set (warn_commas fm j line) \<longleftrightarrow>
     (\<exists>p l g. (p, l, g) \<in> set (exec_loop re_comma_char line 0)
        \<and> position i (int k + 2) fm = position j (int p + 2) fm)"
    by (force simp: warn_commas_def Let_def)
  also have "\<dots> \<longleftrightarrow> (\<exists>l g. i = j \<and> (k, l, g) \<in> set (exec_loop re_comma_char line 0))"
    by (auto simp: position_eq)
  also have "\<dots> \<longleftrightarrow> i = j \<and> line ! k = CHR '','' \<and> Suc k < length line
      \<and> \<not> is_line_terminator (line ! Suc k)"
    by (auto simp: exec_loop_member re_comma_char_at)
  finally show ?thesis .
qed

lemma comma_not_blank:
  assumes "k < length line" and "line ! k = CHR '',''"
  shows "trim line \<noteq> []"
proof -
  have "\<not> is_space (line ! k)" using assms(2) by (simp add: is_space_def)
  moreover have "line ! k \<in> set line" using assms(1) by simp
  ultimately show ?thesis by (auto simp: trim_Nil_iff list_all_iff)
qed

lemma span_row: "row (span i c cs ce fm) = Some (int i)"
  by (simp add: span_def)

lemma filter_rows:
  assumes "\<And>j v. v \<in> set (g j) \<Longrightarrow> row v = Some (int j)"
    and "distinct js" and "i \<in> set js"
  shows "filter (\<lambda>e. entry_row e = Some (int i)) (map Loc (concat (map g js))) = map Loc (g i)"
  using assms(2,3)
proof (induction js)
  case Nil
  then show ?case by simp
next
  case (Cons j js)
  have other: "\<And>j'. j' \<noteq> i \<Longrightarrow> filter (\<lambda>e. entry_row e = Some (int i)) (map Loc (g j')) = []"
    using assms(1) by (auto simp: filter_empty_conv entry_row_def)
  have same: "filter (\<lambda>e. entry_row e = Some (int i)) (map Loc (g i)) = map Loc (g i)"
    using assms(1) by (auto simp: filter_id_conv entry_row_def)
  have rest: "i \<notin> set js \<Longrightarrow>
      filter (\<lambda>e. entry_row e = Some (int i)) (map Loc (concat (map g js))) = []"
    using assms(1) by (auto simp: filter_empty_conv entry_row_def)
  show ?case
  proof (cases "j = i")
    case True
    then have "i \<notin> set js" using Cons.prems(1) by simp
    then show ?thesis using True same rest by simp
  next
    case False
    then have "i \<in> set js" using Cons.prems(2) by simp
    then show ?thesis using False other[of j] Cons.IH Cons.prems(1) by simp
  qed
qed

lemma trailing_run_all:
  "list_all is_space s \<Longrightarrow> trailing_run s = length s"
  by (simp add: trailing_run_def list_all_iff takeWhile_eq_all_conv[THEN iffD2])

lemma trailing_run_Cons:
  "\<not> list_all is_space (c # cs) \<Longrightarrow> trailing_run (c # cs) = trailing_run cs"
proof (cases "list_all is_space cs")
  case True
  assume "\<not> list_all is_space (c # cs)"
  with True have c: "\<not> is_space c" by simp
  have "takeWhile is_space (rev cs @ [c]) = rev cs @ takeWhile is_space [c]"
    using True by (intro takeWhile_append2) (simp add: list_all_iff)
  then have "takeWhile is_space (rev cs @ [c]) = rev cs" using c by simp
  then show ?thesis using True by (simp add: trailing_run_def trailing_run_all[unfolded trailing_run_def])
next
  case False
  then obtain x where "x \<in> set (rev cs)" "\<not> is_space x" by (auto simp: list_all_iff)
  then have "takeWhile is_space (rev cs @ [c]) = takeWhile is_space (rev cs)"
    by (simp add: takeWhile_append1)
  then show ?thesis by (simp add: trailing_run_def)
qed

lemma first_match_trailing_space:
  "first_match re_trailing_space q s =
     (if s \<noteq> [] \<and> is_space (last s)
      then Some (q + length s - trailing_run s, trailing_run s, trailing_run s) else None)"
proof (induction s arbitrary: q)
  case Nil
  then show ?case by (simp add: re_trailing_space_def)
next
  case (Cons c cs)
  show ?case
  proof (cases "list_all is_space (c # cs)")
    case True
    then have "is_space (last (c # cs))" by (metis last_in_set list.distinct(1) list_all_iff)
    then show ?thesis using True trailing_run_all[OF True]
      by (simp add: re_trailing_space_def)
  next
    case False
    then have m: "re_trailing_space (c # cs) = None" by (simp add: re_trailing_space_def)
    have tr: "trailing_run (c # cs) = trailing_run cs" using trailing_run_Cons[OF False] .
    have le: "trailing_run cs \<le> length cs"
      unfolding trailing_run_def by (metis length_rev length_takeWhile_le)
    show ?thesis
    proof (cases "cs = []")
      case True
      then show ?thesis using False m by (simp add: re_trailing_space_def)
    next
      case nonempty: False
      then show ?thesis using m tr le Cons.IH[of "Suc q"] by simp
    qed
  qed
qed

lemma trailing_run_pos: "0 < trailing_run s \<longleftrightarrow> s \<noteq> [] \<and> is_space (last s)"
proof (cases "s = []")
  case True
  then show ?thesis by (simp add: trailing_run_def)
next
  case False
  then obtain x xs where r: "rev s = x # xs" by (cases "rev s") auto
  then have x: "x = last s" using False by (metis hd_rev list.sel(1))
  have "0 < length (takeWhile is_space (x # xs)) \<longleftrightarrow> is_space x" by simp
  then show ?thesis unfolding trailing_run_def r using False x by simp
qed

lemma no_trailing_spaces_eq:
  "no_trailing_spaces fm i line =
     (if 0 < trailing_run line
      then [span i (int (length line) + 1) (int (length line) + 1 - int (trailing_run line) - 1)
              (int (length line) + 1) fm]
      else [])"
  by (simp add: no_trailing_spaces_def search_def exec_def first_match_trailing_space
      trailing_run_pos Let_def)

lemma first_match_nonspace:
  "first_match (re_char is_nonspace) q s =
     (if list_all is_space s then None else Some (q + length (takeWhile is_space s), 1, 0))"
  by (induction s arbitrary: q) (auto simp: re_char_def is_nonspace_def)

lemma search_nonspace:
  "search (re_char is_nonspace) s =
     (if list_all is_space s then - 1 else int (length (takeWhile is_space s)))"
  by (simp add: search_def first_match_nonspace)

lemma incorrect_indentation_eq:
  assumes "\<not> list_all is_space line"
  shows "incorrect_indentation fm i line =
     (if 0 < leading line \<and> 2 < leading line - leading (fm ! (i - 1))
      then [span i (leading line + 1) 0 (leading line) fm] else [])"
  using assms
  by (auto simp: incorrect_indentation_def search_nonspace leading_def Let_def)

section \<open>Lines, texts and what fix mode writes\<close>





























section \<open>C1: the document after the front matter\<close>




section \<open>C2: the rules that run in fix mode\<close>

text \<open>
  C2, as stated, says that fix mode still records the warning for two or more spaces
  after a colon. The loop of that rule is guarded by \<open>!args.fix\<close>: on the front
  matter \<open>key:   value\<close> the rule finds the three spaces, and \<open>lintLineByLine\<close> in fix
  mode returns no warning at all, while outside fix mode it returns the one warning.
\<close>

theorem fix_mode_skips_space_after_colon:
  "one_space_after_colon ['''', ''---'', ''key:   value'', ''---''] 2 ''key:   value''
     = [span 2 8 4 7 ['''', ''---'', ''key:   value'', ''---'']]
   \<and> basicWarnings (snd (lintLineByLine ['''', ''---'', ''key:   value'', ''---''] ''post.md''
        fixing_state))
     = [(msg_whitespace, []), (msg_commas, [])]
   \<and> basicWarnings (snd (lintLineByLine ['''', ''---'', ''key:   value'', ''---''] ''post.md''
        linting_state))
     = [(msg_whitespace, [Loc (span 2 8 4 7 ['''', ''---'', ''key:   value'', ''---''])]),
        (msg_commas, [])]"
  by code_simp

text \<open>
  C2, amended: when fix mode is active, \<open>lintLineByLine\<close> skips every rule except the
  required attributes, repeating white space between word characters and a comma
  followed by a character. Every list of errors but the missing attributes is empty,
  the count of errors is the number of missing attributes, no error counts as fixable,
  and the warnings are what those two rules find in the lines 1 to \<open>fm.length - 2\<close>: the
  rule for spaces after a colon is skipped with the others.
\<close>

theorem lintLineByLine_fix_mode:
  assumes "fix_mode (args st)"
  shows "basicErrors (snd (lintLineByLine fm fp st)) =
      [(msg_missing, map Attribute
          (still_missing fm [1 ..< length fm - 1] (requiredAttributes (config st)))),
       (msg_ws_before_colon, []), (msg_empty_lines, []), (msg_quotes, []),
       (msg_trailing_spaces, []), (msg_brackets, []), (msg_curly_braces, []),
       (msg_indentation, []), (msg_trailing_commas, [])]
    \<and> basicWarnings (snd (lintLineByLine fm fp st)) =
      [(msg_whitespace, map Loc
          (concat (map (\<lambda>i. no_repeating_spaces fm i (fm ! i)) [1 ..< length fm - 1]))),
       (msg_commas, map Loc
          (concat (map (\<lambda>i. warn_commas fm i (fm ! i)) [1 ..< length fm - 1])))]
    \<and> basicFileErrors (snd (lintLineByLine fm fp st)) =
        length (still_missing fm [1 ..< length fm - 1] (requiredAttributes (config st)))
    \<and> fixableErrors (fst (lintLineByLine fm fp st)) = fixableErrors st"
  using assms
  by (simp add: lintLineByLine_def Let_def basic_errors_of_def basic_warnings_of_def
      fix_scan fix_scan_warnings missing_fold scan_start_def)

theorem lintLineByLine_fix_mode_witness:
  "fix_mode (args fixing_state)
   \<and> basicWarnings (snd (lintLineByLine ['''', ''---'', ''a  b: 1,2'', ''---''] ''post.md''
        fixing_state))
     = [(msg_whitespace, [Loc (span 2 4 1 3 ['''', ''---'', ''a  b: 1,2'', ''---''])]),
        (msg_commas, [Loc (position 2 9 ['''', ''---'', ''a  b: 1,2'', ''---''])])]
   \<and> fixableErrors (fst (lintLineByLine ['''', ''---'', ''a  b: 1,2'', ''---''] ''post.md''
        fixing_state)) = fixableErrors fixing_state"
proof -
  let ?fm = "['''', ''---'', ''a  b: 1,2'', ''---'']"
  have fx: "fix_mode (args fixing_state)" by (simp add: fixing_state_def start_state_def)
  have ws: "concat (map (\<lambda>i. no_repeating_spaces ?fm i (?fm ! i)) [1 ..< length ?fm - 1])
      = [span 2 4 1 3 ?fm]" by code_simp
  have cs: "concat (map (\<lambda>i. warn_commas ?fm i (?fm ! i)) [1 ..< length ?fm - 1])
      = [position 2 9 ?fm]" by code_simp
  note t = lintLineByLine_fix_mode[OF fx, of ?fm "''post.md''"]
  from t have "basicWarnings (snd (lintLineByLine ?fm ''post.md'' fixing_state))
     = [(msg_whitespace, map Loc
          (concat (map (\<lambda>i. no_repeating_spaces ?fm i (?fm ! i)) [1 ..< length ?fm - 1]))),
        (msg_commas, map Loc
          (concat (map (\<lambda>i. warn_commas ?fm i (?fm ! i)) [1 ..< length ?fm - 1])))]"
    by blast
  then have w: "basicWarnings (snd (lintLineByLine ?fm ''post.md'' fixing_state))
     = [(msg_whitespace, [Loc (span 2 4 1 3 ?fm)]), (msg_commas, [Loc (position 2 9 ?fm)])]"
    unfolding ws cs by simp
  from t have f: "fixableErrors (fst (lintLineByLine ?fm ''post.md'' fixing_state))
      = fixableErrors fixing_state" by blast
  show ?thesis using fx w f by blast
qed

section \<open>C3: trailing white space\<close>

text \<open>
  C3, as stated, gives \<open>colStart = colEnd - N\<close> for a run of N trailing white-space
  characters, and a violation for every line with such a run. The rule counts
  \<open>spaceCount\<close> as the length of the run plus one: on the line \<open>title: x\<close> with one
  space after it (length 9, N = 1) the violation has \<open>colEnd\<close> 10 and \<open>colStart\<close> 8, not
  9. And a line of white space only (two spaces, N = 2) is an empty line for the
  linter, which goes on to the next line before this rule: it records no violation of
  trailing spaces.
\<close>

theorem trailing_spaces_colStart:
  "lookup (basicErrors (snd (lintLineByLine ['''', ''---'', ''title: x '', ''---''] ''post.md''
        linting_state))) msg_trailing_spaces
     = [Loc (span 2 10 8 10 ['''', ''---'', ''title: x '', ''---''])]
   \<and> trailing_run ''title: x '' = 1 \<and> length ''title: x '' = 9
   \<and> lookup (basicErrors (snd (lintLineByLine ['''', ''---'', ''  '', ''---''] ''post.md''
        linting_state))) msg_trailing_spaces = []
   \<and> trailing_run ''  '' = 2"
  by code_simp

text \<open>
  C3, amended: outside fix mode, for every line \<open>i\<close> of the loop (1 to
  \<open>fm.length - 2\<close>) that ends in a run of N white-space characters, N at least 1, and
  is not white space only, \<open>lintLineByLine\<close> records exactly one violation of trailing
  spaces for that row, with \<open>col\<close> and \<open>colEnd\<close> equal to the length of the line plus 1
  and \<open>colStart = colEnd - N - 1\<close>. For a line of white space only it records none.
\<close>

theorem trailing_spaces_violation:
  assumes "\<not> fix_mode (args st)" and "1 \<le> i" and "i < length fm - 1"
    and "1 \<le> trailing_run (fm ! i)"
  shows "filter (\<lambda>e. entry_row e = Some (int i))
           (lookup (basicErrors (snd (lintLineByLine fm fp st))) msg_trailing_spaces)
     = (if list_all is_space (fm ! i) then []
        else [Loc (span i (int (length (fm ! i)) + 1)
                     (int (length (fm ! i)) + 1 - int (trailing_run (fm ! i)) - 1)
                     (int (length (fm ! i)) + 1) fm)])"
proof -
  let ?g = "\<lambda>j. if fix_mode (args st) \<or> trim (fm ! j) = [] then []
                 else no_trailing_spaces fm j (fm ! j)"
  have l: "lookup (basicErrors (snd (lintLineByLine fm fp st))) msg_trailing_spaces
      = map Loc (concat (map ?g [1 ..< length fm - 1]))"
    by (simp add: lintLineByLine_def Let_def lookup_basic_errors scan_lists)
  have rows: "\<And>j v. v \<in> set (?g j) \<Longrightarrow> row v = Some (int j)"
    by (auto simp: no_trailing_spaces_eq span_row split: if_splits)
  have i: "i \<in> set [1 ..< length fm - 1]" using assms(2,3) by simp
  have "filter (\<lambda>e. entry_row e = Some (int i)) (map Loc (concat (map ?g [1 ..< length fm - 1])))
      = map Loc (?g i)"
    by (rule filter_rows[where g = ?g, OF rows _ i]) simp_all
  then show ?thesis
    unfolding l using assms(1,4) by (simp add: trim_Nil_iff no_trailing_spaces_eq)
qed

theorem trailing_spaces_violation_witness:
  "\<not> fix_mode (args linting_state) \<and> (1::nat) \<le> 2
   \<and> 2 < length ['''', ''---'', ''title: x  '', ''---''] - 1
   \<and> 1 \<le> trailing_run (['''', ''---'', ''title: x  '', ''---''] ! 2)
   \<and> filter (\<lambda>e. entry_row e = Some (int 2))
        (lookup (basicErrors (snd (lintLineByLine ['''', ''---'', ''title: x  '', ''---'']
           ''post.md'' linting_state))) msg_trailing_spaces)
     = [Loc (span 2 11 8 11 ['''', ''---'', ''title: x  '', ''---''])]"
proof -
  let ?fm = "['''', ''---'', ''title: x  '', ''---'']"
  have h1: "\<not> fix_mode (args linting_state)"
    by (simp add: linting_state_def start_state_def)
  have h2: "(1::nat) \<le> 2" by simp
  have h3: "2 < length ?fm - 1" by simp
  have h4: "1 \<le> trailing_run (?fm ! 2)" by code_simp
  have v: "(if list_all is_space (?fm ! 2) then []
        else [Loc (span 2 (int (length (?fm ! 2)) + 1)
                     (int (length (?fm ! 2)) + 1 - int (trailing_run (?fm ! 2)) - 1)
                     (int (length (?fm ! 2)) + 1) ?fm)])
     = [Loc (span 2 11 8 11 ?fm)]"
    by code_simp
  from trailing_spaces_violation[OF h1 h2 h3 h4, of "''post.md''"]
  have "filter (\<lambda>e. entry_row e = Some (int 2))
        (lookup (basicErrors (snd (lintLineByLine ?fm ''post.md'' linting_state)))
           msg_trailing_spaces)
     = [Loc (span 2 11 8 11 ?fm)]"
    unfolding v .
  with h1 h2 h3 h4 show ?thesis by blast
qed

section \<open>C4: the counts of the outcome\<close>

text \<open>
  C4 says that \<open>fileErrors\<close> and \<open>fileWarnings\<close> of the outcome count the violations
  of that file alone. \<open>lintFile\<close> returns the counters \<open>errorNumber\<close> and
  \<open>warningNumber\<close> of the module instead, which run over all the files linted so far.
  In a run over two files, the first without front matter and the second with front
  matter that breaks no rule, the outcome of the second file has no violation in any
  list and a \<open>fileErrors\<close> of 1.
\<close>

theorem lintFile_fileErrors_cumulative:
  "(case lintFile canonical_load canonical_dump ''a.md'' ''Hello''
          \<lparr>fix_mode = False, quiet = True\<rparr> plain_config linting_state of
      (st1, r1) \<Rightarrow>
        (r1, snd (lintFile canonical_load canonical_dump ''b.md''
              (''---'' @ [NL] @ ''title: x'' @ [NL] @ ''---'' @ [NL] @ ''Hello'')
              \<lparr>fix_mode = False, quiet = True\<rparr> plain_config st1)))
   = (Inr \<lparr>filePath = ''a.md'', fileErrors = 1, fileWarnings = 0,
           errors = NoFrontMatter, warnings = []\<rparr>,
      Inr \<lparr>filePath = ''b.md'', fileErrors = 1, fileWarnings = 0,
           errors = Violations
             [(msg_missing, []), (msg_ws_before_colon, []), (msg_empty_lines, []),
              (msg_quotes, []), (msg_trailing_spaces, []), (msg_brackets, []),
              (msg_curly_braces, []), (msg_indentation, []), (msg_trailing_commas, [])],
           warnings = [(msg_whitespace, []), (msg_commas, [])]\<rparr>)"
  by code_simp

section \<open>C5: a jump of the indentation\<close>

text \<open>
  C5, as stated, compares the indentation of a line with that of the previous line
  that is not blank. The rule reads the line just before, \<open>fm[i - 1]\<close>, and takes 0
  for its indentation when it is blank. In the front matter below, line 5 is indented
  by 4, the line before it is empty, and the last line before it that is not blank is
  indented by 2: the excess over that line is exactly 2, and the violation is recorded.
\<close>

theorem indentation_after_blank_line:
  "lookup (basicErrors (snd (lintLineByLine
       ['''', ''---'', ''a:'', ''  b:'', '''', ''    c: 1'', ''---''] ''post.md'' linting_state)))
     msg_indentation
   = [Loc (span 5 5 0 4 ['''', ''---'', ''a:'', ''  b:'', '''', ''    c: 1'', ''---''])]
   \<and> leading ''    c: 1'' = 4 \<and> leading ''  b:'' = 2 \<and> list_all is_space ''''"
  by code_simp

text \<open>
  C5, amended: outside fix mode, for every line \<open>i\<close> of the loop whose leading white
  space has a positive length, \<open>lintLineByLine\<close> records a violation of the indentation
  for that row if and only if the column of its leading white space exceeds by more
  than 2 that of the line just before it, \<open>fm[i - 1]\<close>, taken as 0 when that line is
  empty or white space only. It records at most one, from column 0 to the indentation;
  an excess of exactly 2 records none.
\<close>

theorem indentation_violation:
  assumes "\<not> fix_mode (args st)" and "1 \<le> i" and "i < length fm - 1"
    and "0 < leading (fm ! i)"
  shows "filter (\<lambda>e. entry_row e = Some (int i))
           (lookup (basicErrors (snd (lintLineByLine fm fp st))) msg_indentation)
     = (if 2 < leading (fm ! i) - leading (fm ! (i - 1))
        then [Loc (span i (leading (fm ! i) + 1) 0 (leading (fm ! i)) fm)] else [])"
proof -
  let ?g = "\<lambda>j. if fix_mode (args st) \<or> trim (fm ! j) = [] then []
                 else incorrect_indentation fm j (fm ! j)"
  have l: "lookup (basicErrors (snd (lintLineByLine fm fp st))) msg_indentation
      = map Loc (concat (map ?g [1 ..< length fm - 1]))"
    by (simp add: lintLineByLine_def Let_def lookup_basic_errors scan_lists)
  have rows: "\<And>j v. v \<in> set (?g j) \<Longrightarrow> row v = Some (int j)"
    by (auto simp: incorrect_indentation_eq trim_Nil_iff span_row split: if_splits)
  have i: "i \<in> set [1 ..< length fm - 1]" using assms(2,3) by simp
  have nb: "\<not> list_all is_space (fm ! i)"
    using assms(4) by (auto simp: leading_def split: if_splits)
  have "filter (\<lambda>e. entry_row e = Some (int i)) (map Loc (concat (map ?g [1 ..< length fm - 1])))
      = map Loc (?g i)"
    by (rule filter_rows[where g = ?g, OF rows _ i]) simp_all
  then show ?thesis
    unfolding l using assms(1,4) nb by (simp add: trim_Nil_iff incorrect_indentation_eq)
qed

theorem indentation_violation_witness:
  "\<not> fix_mode (args linting_state) \<and> (1::nat) \<le> 3
   \<and> 3 < length ['''', ''---'', ''a:'', ''     b: 1'', ''---''] - 1
   \<and> 0 < leading (['''', ''---'', ''a:'', ''     b: 1'', ''---''] ! 3)
   \<and> filter (\<lambda>e. entry_row e = Some (int 3))
        (lookup (basicErrors (snd (lintLineByLine ['''', ''---'', ''a:'', ''     b: 1'', ''---'']
           ''post.md'' linting_state))) msg_indentation)
     = [Loc (span 3 6 0 5 ['''', ''---'', ''a:'', ''     b: 1'', ''---''])]"
proof -
  let ?fm = "['''', ''---'', ''a:'', ''     b: 1'', ''---'']"
  have h1: "\<not> fix_mode (args linting_state)"
    by (simp add: linting_state_def start_state_def)
  have h2: "(1::nat) \<le> 3" by simp
  have h3: "3 < length ?fm - 1" by simp
  have h4: "0 < leading (?fm ! 3)" by code_simp
  have v: "(if 2 < leading (?fm ! 3) - leading (?fm ! (3 - 1))
        then [Loc (span 3 (leading (?fm ! 3) + 1) 0 (leading (?fm ! 3)) ?fm)] else [])
     = [Loc (span 3 6 0 5 ?fm)]"
    by code_simp
  from indentation_violation[OF h1 h2 h3 h4, of "''post.md''"]
  have "filter (\<lambda>e. entry_row e = Some (int 3))
        (lookup (basicErrors (snd (lintLineByLine ?fm ''post.md'' linting_state)))
           msg_indentation)
     = [Loc (span 3 6 0 5 ?fm)]"
    unfolding v .
  with h1 h2 h3 h4 show ?thesis by blast
qed

section \<open>C6: a plugin's issue without a row and without a snippet\<close>




section \<open>C7: a comma followed by a character\<close>

text \<open>
  C7, as stated, has the warning for a comma if and only if a character that is not
  white space follows it. The expression of the rule is \<open>/,./\<close>: the dot matches a space
  too. In \<open>tags: a, b\<close> the comma at index 7 is followed by a space, and the warning is
  recorded, at column 9.
\<close>

theorem comma_before_space_warned:
  "lookup (basicWarnings (snd (lintLineByLine ['''', ''---'', ''tags: a, b'', ''---''] ''post.md''
        linting_state))) msg_commas
     = [Loc (position 2 9 ['''', ''---'', ''tags: a, b'', ''---''])]
   \<and> ''tags: a, b'' ! 7 = CHR '','' \<and> is_space (''tags: a, b'' ! 8)"
  by code_simp

text \<open>
  C7, amended: for every line \<open>i\<close> of the loop and every comma in it, at index \<open>k\<close>
  from 0, \<open>lintLineByLine\<close> records the warning for that comma (row \<open>i\<close>, column
  \<open>k + 2\<close>) if and only if the comma is followed by a character that is not a line
  terminator, white space or not: every comma but one that ends the line. This holds
  in fix mode and outside it.
\<close>

theorem comma_warning_iff:
  assumes "1 \<le> i" and "i < length fm - 1"
    and "k < length (fm ! i)" and "fm ! i ! k = CHR '',''"
  shows "Loc (position i (int k + 2) fm)
           \<in> set (lookup (basicWarnings (snd (lintLineByLine fm fp st))) msg_commas)
     \<longleftrightarrow> Suc k < length (fm ! i) \<and> \<not> is_line_terminator (fm ! i ! Suc k)"
proof -
  let ?fx = "fix_mode (args st)"
  let ?g = "\<lambda>j. if \<not> ?fx \<and> trim (fm ! j) = [] then [] else warn_commas fm j (fm ! j)"
  have l: "lookup (basicWarnings (snd (lintLineByLine fm fp st))) msg_commas
      = map Loc (concat (map ?g [1 ..< length fm - 1]))"
    by (simp add: lintLineByLine_def Let_def lookup_basic_warnings scan_lists)
  have nb: "trim (fm ! i) \<noteq> []" using comma_not_blank[OF assms(3,4)] .
  have "Loc (position i (int k + 2) fm) \<in> set (map Loc (concat (map ?g [1 ..< length fm - 1])))
     \<longleftrightarrow> (\<exists>j \<in> {1 ..< length fm - 1}. position i (int k + 2) fm \<in> set (?g j))"
    by auto
  also have "\<dots> \<longleftrightarrow> position i (int k + 2) fm \<in> set (warn_commas fm i (fm ! i))"
  proof
    assume "\<exists>j \<in> {1 ..< length fm - 1}. position i (int k + 2) fm \<in> set (?g j)"
    then obtain j where j: "position i (int k + 2) fm \<in> set (?g j)" by blast
    then have m: "position i (int k + 2) fm \<in> set (warn_commas fm j (fm ! j))"
      by (auto split: if_splits)
    then have "i = j" by (simp add: warn_commas_member)
    with m show "position i (int k + 2) fm \<in> set (warn_commas fm i (fm ! i))" by simp
  next
    assume "position i (int k + 2) fm \<in> set (warn_commas fm i (fm ! i))"
    then have "position i (int k + 2) fm \<in> set (?g i)" using nb by simp
    moreover have "i \<in> {1 ..< length fm - 1}" using assms(1,2) by simp
    ultimately show "\<exists>j \<in> {1 ..< length fm - 1}. position i (int k + 2) fm \<in> set (?g j)"
      by blast
  qed
  also have "\<dots> \<longleftrightarrow> Suc k < length (fm ! i) \<and> \<not> is_line_terminator (fm ! i ! Suc k)"
    using assms(4) by (simp add: warn_commas_member)
  finally show ?thesis unfolding l .
qed

theorem comma_warning_iff_witness:
  "(1::nat) \<le> 2 \<and> 2 < length ['''', ''---'', ''tags: a, b,'', ''---''] - 1
   \<and> 7 < length (['''', ''---'', ''tags: a, b,'', ''---''] ! 2)
   \<and> ['''', ''---'', ''tags: a, b,'', ''---''] ! 2 ! 7 = CHR '',''
   \<and> Loc (position 2 9 ['''', ''---'', ''tags: a, b,'', ''---''])
        \<in> set (lookup (basicWarnings (snd (lintLineByLine
             ['''', ''---'', ''tags: a, b,'', ''---''] ''post.md'' linting_state))) msg_commas)"
proof -
  let ?fm = "['''', ''---'', ''tags: a, b,'', ''---'']"
  have h1: "(1::nat) \<le> 2" by simp
  have h2: "2 < length ?fm - 1" by simp
  have h3: "7 < length (?fm ! 2)" by simp
  have h4: "?fm ! 2 ! 7 = CHR '',''" by simp
  have r: "Suc 7 < length (?fm ! 2) \<and> \<not> is_line_terminator (?fm ! 2 ! Suc 7)"
    by (simp add: is_line_terminator_def NL_def CR_def)
  from comma_warning_iff[OF h1 h2 h3 h4, of "''post.md''" linting_state] r
  have "Loc (position 2 (int 7 + 2) ?fm)
        \<in> set (lookup (basicWarnings (snd (lintLineByLine ?fm ''post.md'' linting_state)))
                 msg_commas)"
    by blast
  then have "Loc (position 2 9 ?fm)
        \<in> set (lookup (basicWarnings (snd (lintLineByLine ?fm ''post.md'' linting_state)))
                 msg_commas)"
    by simp
  with h1 h2 h3 h4 show ?thesis by blast
qed

section \<open>C8: a front matter the parser rejects\<close>

text \<open>
  C8: when the front matter is found and \<open>load\<close> rejects its text, \<open>lintFile\<close> records
  exactly one error: \<open>errorNumber\<close> grows by one, and the outcome holds the single
  \<open>customError\<close> with the reason of the parser and, where the parser gave a mark, its
  line and column plus one. No rule runs on the file: the warnings are empty,
  \<open>warningNumber\<close> and \<open>fixableErrors\<close> keep their values, no file is written, and the
  only thing shown (unless \<open>quiet\<close>) is that one error.
\<close>

theorem lintFile_parse_failure:
  assumes "linted_text fp text st = Some data"
    and "front_matter_end (lines_of data) = Some k"
    and "load (yaml_source (take (k + 1) (lines_of data))) = Inl e"
  shows "snd (lintFile load dump fp text a c st) =
      Inr \<lparr>filePath = fp,
           fileErrors = errorNumber st + 1,
           fileWarnings = warningNumber st,
           errors = CustomError (reason e)
                      (map_option (\<lambda>(ln, cl). int ln + 1) (mark e))
                      (map_option (\<lambda>(ln, cl). int cl + 1) (mark e)),
           warnings = []\<rparr>
    \<and> errorNumber (fst (lintFile load dump fp text a c st)) = errorNumber st + 1
    \<and> warningNumber (fst (lintFile load dump fp text a c st)) = warningNumber st
    \<and> fixableErrors (fst (lintFile load dump fp text a c st)) = fixableErrors st
    \<and> files (fst (lintFile load dump fp text a c st)) = files st
    \<and> console (fst (lintFile load dump fp text a c st)) =
        console st @ (if text \<noteq> [] then [ConsoleLog e] else [])
        @ (if quiet (args (entry_state text a c st)) then []
           else [ShowError (reason e) fp
                   (PEntries
                      [Loc \<lparr>row = map_option (\<lambda>(ln, cl). int ln + 1) (mark e),
                            col = map_option (\<lambda>(ln, cl). int cl + 1) (mark e),
                            colStart = None, colEnd = None,
                            snippet = Some (catch_snippet (take (k + 1) (lines_of data))
                                              (mark e))\<rparr>])
                   False])"
  using assms(2,3)
  by (simp add: lintFile_lint_data[OF assms(1)] lint_data_def parse_failure_def
      entry_state_def Let_def)

theorem lintFile_parse_failure_witness:
  "linted_text ''post.md'' (''---'' @ [NL] @ ''tags: [a'' @ [NL] @ ''---'' @ [NL]) linting_state
     = Some (''---'' @ [NL] @ ''tags: [a'' @ [NL] @ ''---'' @ [NL])
   \<and> front_matter_end (lines_of (''---'' @ [NL] @ ''tags: [a'' @ [NL] @ ''---'' @ [NL])) = Some 3
   \<and> snd (lintFile rejecting_load canonical_dump ''post.md''
        (''---'' @ [NL] @ ''tags: [a'' @ [NL] @ ''---'' @ [NL])
        \<lparr>fix_mode = False, quiet = True\<rparr> plain_config linting_state)
     = Inr \<lparr>filePath = ''post.md'', fileErrors = 1, fileWarnings = 0,
            errors = CustomError (Some ''unexpected end of the stream within a flow collection'')
                       (Some 3) (Some 1),
            warnings = []\<rparr>"
proof -
  let ?data = "''---'' @ [NL] @ ''tags: [a'' @ [NL] @ ''---'' @ [NL]"
  let ?e = "\<lparr>reason = Some ''unexpected end of the stream within a flow collection'',
             mark = Some (2, 0)\<rparr> :: js_error"
  have t: "linted_text ''post.md'' ?data linting_state = Some ?data"
    by (simp add: linted_text_def)
  have k: "front_matter_end (lines_of ?data) = Some 3" by code_simp
  have l: "rejecting_load (yaml_source (take (3 + 1) (lines_of ?data))) = Inl ?e"
    by (simp add: rejecting_load_def)
  have n: "errorNumber linting_state = 0" "warningNumber linting_state = 0"
    by (simp_all add: linting_state_def start_state_def)
  from lintFile_parse_failure
    [where load = rejecting_load and dump = canonical_dump and c = plain_config
       and a = "\<lparr>fix_mode = False, quiet = True\<rparr>", OF t k l]
  have "snd (lintFile rejecting_load canonical_dump ''post.md'' ?data
        \<lparr>fix_mode = False, quiet = True\<rparr> plain_config linting_state)
     = Inr \<lparr>filePath = ''post.md'', fileErrors = 1, fileWarnings = 0,
            errors = CustomError (Some ''unexpected end of the stream within a flow collection'')
                       (Some 3) (Some 1),
            warnings = []\<rparr>"
    by (simp add: n)
  with t k show ?thesis by blast
qed

section \<open>C9: fix mode, run twice\<close>




section \<open>C10: the quiet flag\<close>

text \<open>
  C10: the quiet flag changes what is shown and nothing else. Two runs of \<open>lintFile\<close>
  on the same file, from states of the module that differ at most in the console and
  in \<open>args.quiet\<close>, with arguments that differ at most in \<open>quiet\<close>, resolve to the same
  outcome (the counts and both maps of violations) and leave states that again differ
  at most in the console and in \<open>args.quiet\<close>: the same counters, exit code and files.
\<close>

theorem lintFile_quiet:
  assumes "agree s t" and "fix_mode a = fix_mode b"
  shows "snd (lintFile load dump fp text a c s) = snd (lintFile load dump fp text b c t)
    \<and> agree (fst (lintFile load dump fp text a c s)) (fst (lintFile load dump fp text b c t))"
proof (cases "text = []")
  case True
  have fl: "files s = files t" using assms by (simp add: agree_def)
  show ?thesis
  proof (cases "files t fp")
    case None
    then show ?thesis using True fl assms by (simp add: lintFile_def)
  next
    case (Some data)
    then show ?thesis
      using True fl agree_lint_data[OF assms(1), of load dump False fp data]
      by (auto simp: lintFile_def split: prod.splits)
  qed
next
  case False
  have "agree (s\<lparr>args := a, config := c\<rparr>) (t\<lparr>args := b, config := c\<rparr>)"
    using assms by (simp add: agree_def)
  from agree_lint_data[OF this, of load dump True fp "text"]
  show ?thesis using False by (auto simp: lintFile_def split: prod.splits)
qed

theorem lintFile_quiet_witness:
  "agree linting_state (linting_state\<lparr>args := \<lparr>fix_mode = False, quiet = False\<rparr>\<rparr>)
   \<and> fix_mode \<lparr>fix_mode = False, quiet = True\<rparr> = fix_mode \<lparr>fix_mode = False, quiet = False\<rparr>
   \<and> snd (lintFile canonical_load canonical_dump ''post.md''
          (''---'' @ [NL] @ ''title:  x '' @ [NL] @ ''---'' @ [NL])
          \<lparr>fix_mode = False, quiet = True\<rparr> plain_config linting_state)
     = snd (lintFile canonical_load canonical_dump ''post.md''
          (''---'' @ [NL] @ ''title:  x '' @ [NL] @ ''---'' @ [NL])
          \<lparr>fix_mode = False, quiet = False\<rparr> plain_config
          (linting_state\<lparr>args := \<lparr>fix_mode = False, quiet = False\<rparr>\<rparr>))"
proof -
  have a: "agree linting_state (linting_state\<lparr>args := \<lparr>fix_mode = False, quiet = False\<rparr>\<rparr>)"
    by (simp add: agree_def linting_state_def start_state_def)
  have f: "fix_mode \<lparr>fix_mode = False, quiet = True\<rparr> = fix_mode \<lparr>fix_mode = False, quiet = False\<rparr>"
    by simp
  from lintFile_quiet[OF a f] a f show ?thesis by blast
qed

end
